theory Spec2Isabelle
  imports Main "HOL-Library.AList" "HOL-Library.Sublist" "HOL-Library.Char_ord"
    "HOL-Library.List_Lexorder" "HOL-Library.Monad_Syntax"
begin

section \<open>The identifier cache of the Scaleway client\<close>

text \<open>
  A shallow embedding of the cache and resolver of package \<open>api\<close>: the store
  \<open>ScalewayCache\<close>, its insert operations, the five per-kind lookups, the unified
  lookup, and loading and saving the cache file.
  The mutex of the store is left out: every operation is modelled as one atomic step.
\<close>

subsection \<open>Data model\<close>

text \<open>
  A cache record is the Go array \<open>[MAXFIELD]string\<close> with \<open>MAXFIELD = 4\<close>, read
  through the index constants \<open>REGION\<close>, \<open>ARCH\<close>, \<open>OWNER\<close>, \<open>TITLE\<close>.
  It is a record with one field per index, so that \<open>TITLE flds\<close> is \<open>fields[TITLE]\<close>.
\<close>

record fields =
  REGION :: string
  ARCH :: string
  OWNER :: string
  TITLE :: string

text \<open>
  A Go map \<open>map[string][MAXFIELD]string\<close>. \<open>None\<close> is the nil map (the zero value of
  the type); \<open>Some xs\<close> is an initialised map whose entries are the pairs of \<open>xs\<close>.
  Go leaves the order of a \<open>range\<close> over a map unspecified; the list order is the
  order in which this run of the program meets the entries, and the theorems below
  hold for every list.
\<close>

type_synonym gomap = "(string \<times> fields) list option"

datatype error =
    PanicNilMap        \<comment> \<open>assignment to entry in nil map\<close>
  | PanicRegexp        \<comment> \<open>\<open>regexp.MustCompile\<close> on a pattern that does not parse\<close>
  | ErrNotExist        \<comment> \<open>no such file or directory\<close>
  | ErrExist           \<comment> \<open>file exists\<close>
  | ErrIO              \<comment> \<open>any other failure of the operating system\<close>
  | ErrJSON            \<comment> \<open>an error returned by \<open>json.Unmarshal\<close>\<close>

definition make_map :: gomap where
  "make_map = Some []"

definition entries :: "gomap \<Rightarrow> (string \<times> fields) list" where
  "entries m = (case m of None \<Rightarrow> [] | Some xs \<Rightarrow> xs)"

definition mapIndex :: "gomap \<Rightarrow> string \<Rightarrow> fields option" where
  "mapIndex m k = map_of (entries m) k"

definition mapAssign :: "gomap \<Rightarrow> string \<Rightarrow> fields \<Rightarrow> error + gomap" where
  "mapAssign m k v = (case m of None \<Rightarrow> Inl PanicNilMap | Some xs \<Rightarrow> Inr (Some (AList.update k v xs)))"

record ScalewayCache =
  Images :: gomap
  Snapshots :: gomap
  Volumes :: gomap
  Bootscripts :: gomap
  Servers :: gomap
  Path :: string
  Modified :: bool

subsection \<open>Insert operations\<close>

definition InsertServer ::
  "ScalewayCache \<Rightarrow> string \<Rightarrow> string \<Rightarrow> string \<Rightarrow> string \<Rightarrow> string \<Rightarrow> error + ScalewayCache" where
  "InsertServer c identifier region arch owner name =
     (case mapIndex (Servers c) identifier of
        Some flds \<Rightarrow>
          if TITLE flds \<noteq> name then
            (case mapAssign (Servers c) identifier
                    \<lparr>REGION = region, ARCH = arch, OWNER = owner, TITLE = name\<rparr> of
               Inl e \<Rightarrow> Inl e
             | Inr m \<Rightarrow> Inr (c\<lparr>Servers := m, Modified := True\<rparr>))
          else Inr c
      | None \<Rightarrow>
          (case mapAssign (Servers c) identifier
                  \<lparr>REGION = region, ARCH = arch, OWNER = owner, TITLE = name\<rparr> of
             Inl e \<Rightarrow> Inl e
           | Inr m \<Rightarrow> Inr (c\<lparr>Servers := m, Modified := True\<rparr>)))"

definition InsertImage ::
  "ScalewayCache \<Rightarrow> string \<Rightarrow> string \<Rightarrow> string \<Rightarrow> string \<Rightarrow> string \<Rightarrow> error + ScalewayCache" where
  "InsertImage c identifier region arch owner name =
     (case mapIndex (Images c) identifier of
        Some flds \<Rightarrow>
          if TITLE flds \<noteq> name then
            (case mapAssign (Images c) identifier
                    \<lparr>REGION = region, ARCH = arch, OWNER = owner, TITLE = name\<rparr> of
               Inl e \<Rightarrow> Inl e
             | Inr m \<Rightarrow> Inr (c\<lparr>Images := m, Modified := True\<rparr>))
          else Inr c
      | None \<Rightarrow>
          (case mapAssign (Images c) identifier
                  \<lparr>REGION = region, ARCH = arch, OWNER = owner, TITLE = name\<rparr> of
             Inl e \<Rightarrow> Inl e
           | Inr m \<Rightarrow> Inr (c\<lparr>Images := m, Modified := True\<rparr>)))"

definition InsertSnapshot ::
  "ScalewayCache \<Rightarrow> string \<Rightarrow> string \<Rightarrow> string \<Rightarrow> string \<Rightarrow> string \<Rightarrow> error + ScalewayCache" where
  "InsertSnapshot c identifier region arch owner name =
     (case mapIndex (Snapshots c) identifier of
        Some flds \<Rightarrow>
          if TITLE flds \<noteq> name then
            (case mapAssign (Snapshots c) identifier
                    \<lparr>REGION = region, ARCH = arch, OWNER = owner, TITLE = name\<rparr> of
               Inl e \<Rightarrow> Inl e
             | Inr m \<Rightarrow> Inr (c\<lparr>Snapshots := m, Modified := True\<rparr>))
          else Inr c
      | None \<Rightarrow>
          (case mapAssign (Snapshots c) identifier
                  \<lparr>REGION = region, ARCH = arch, OWNER = owner, TITLE = name\<rparr> of
             Inl e \<Rightarrow> Inl e
           | Inr m \<Rightarrow> Inr (c\<lparr>Snapshots := m, Modified := True\<rparr>)))"

definition InsertVolume ::
  "ScalewayCache \<Rightarrow> string \<Rightarrow> string \<Rightarrow> string \<Rightarrow> string \<Rightarrow> string \<Rightarrow> error + ScalewayCache" where
  "InsertVolume c identifier region arch owner name =
     (case mapIndex (Volumes c) identifier of
        Some flds \<Rightarrow>
          if TITLE flds \<noteq> name then
            (case mapAssign (Volumes c) identifier
                    \<lparr>REGION = region, ARCH = arch, OWNER = owner, TITLE = name\<rparr> of
               Inl e \<Rightarrow> Inl e
             | Inr m \<Rightarrow> Inr (c\<lparr>Volumes := m, Modified := True\<rparr>))
          else Inr c
      | None \<Rightarrow>
          (case mapAssign (Volumes c) identifier
                  \<lparr>REGION = region, ARCH = arch, OWNER = owner, TITLE = name\<rparr> of
             Inl e \<Rightarrow> Inl e
           | Inr m \<Rightarrow> Inr (c\<lparr>Volumes := m, Modified := True\<rparr>)))"

definition InsertBootscript ::
  "ScalewayCache \<Rightarrow> string \<Rightarrow> string \<Rightarrow> string \<Rightarrow> string \<Rightarrow> string \<Rightarrow> error + ScalewayCache" where
  "InsertBootscript c identifier region arch owner name =
     (case mapIndex (Bootscripts c) identifier of
        Some flds \<Rightarrow>
          if TITLE flds \<noteq> name then
            (case mapAssign (Bootscripts c) identifier
                    \<lparr>REGION = region, ARCH = arch, OWNER = owner, TITLE = name\<rparr> of
               Inl e \<Rightarrow> Inl e
             | Inr m \<Rightarrow> Inr (c\<lparr>Bootscripts := m, Modified := True\<rparr>))
          else Inr c
      | None \<Rightarrow>
          (case mapAssign (Bootscripts c) identifier
                  \<lparr>REGION = region, ARCH = arch, OWNER = owner, TITLE = name\<rparr> of
             Inl e \<Rightarrow> Inl e
           | Inr m \<Rightarrow> Inr (c\<lparr>Bootscripts := m, Modified := True\<rparr>)))"


subsection \<open>External packages\<close>

text \<open>
  The resolver and the persistence code call four packages that are not part of the
  repository: \<open>regexp\<close>, \<open>github.com/moul/anonuuid\<close>,
  \<open>github.com/renstrom/fuzzysearch/fuzzy\<close> and \<open>encoding/json\<close>. Their functions are
  parameters of the model, gathered in one record:
  \<^item> \<open>regexp_MustCompile p\<close> is \<open>None\<close> when \<open>regexp.MustCompile(p)\<close> panics, and
    \<open>Some m\<close> when it returns a regular expression whose \<open>MatchString\<close> is \<open>m\<close>;
  \<^item> \<open>anonuuid_IsUUID s\<close> is \<open>anonuuid.IsUUID(s) == nil\<close>;
  \<^item> \<open>fuzzy_RankMatch\<close> is \<open>fuzzy.RankMatch\<close>;
  \<^item> \<open>json_Encode d\<close> is the text \<open>Encoder.Encode\<close> writes for a store whose exported
    fields are \<open>d\<close>, and \<open>json_Unmarshal b d\<close> is the result of \<open>json.Unmarshal(b, &cache)\<close>
    on a store whose exported fields are \<open>d\<close>: the error, if any, and the fields afterwards.
\<close>

record json_doc =
  images :: gomap
  snapshots :: gomap
  volumes :: gomap
  bootscripts :: gomap
  servers :: gomap

record ext =
  regexp_MustCompile :: "string \<Rightarrow> (string \<Rightarrow> bool) option"
  anonuuid_IsUUID :: "string \<Rightarrow> bool"
  fuzzy_RankMatch :: "string \<Rightarrow> string \<Rightarrow> int"
  json_Encode :: "json_doc \<Rightarrow> string"
  json_Unmarshal :: "string \<Rightarrow> json_doc \<Rightarrow> error option \<times> json_doc"

subsection \<open>Resolver results\<close>

text \<open>The type keys, \<open>1 << iota\<close> in the order of the source.\<close>

definition IdentifierUnknown :: int where "IdentifierUnknown = 1"
definition IdentifierServer :: int where "IdentifierServer = 2"
definition IdentifierImage :: int where "IdentifierImage = 4"
definition IdentifierSnapshot :: int where "IdentifierSnapshot = 8"
definition IdentifierBootscript :: int where "IdentifierBootscript = 16"
definition IdentifierVolume :: int where "IdentifierVolume = 32"

record ScalewayResolverResult =
  Identifier :: string
  Type :: int
  Name :: string
  Needle :: string
  RankMatch :: int

type_synonym ScalewayResolverResults = "ScalewayResolverResult list"

definition ComputeRankMatch :: "ext \<Rightarrow> ScalewayResolverResult \<Rightarrow> string \<Rightarrow> ScalewayResolverResult" where
  "ComputeRankMatch E s needle = s\<lparr>Needle := needle, RankMatch := fuzzy_RankMatch E needle (Name s)\<rparr>"

subsection \<open>Per-kind lookups\<close>

text \<open>\<open>regexp.MustCompile(`^user/`).ReplaceAllString(needle, "")\<close>: one leading \<open>user/\<close> goes.\<close>

definition stripUser :: "string \<Rightarrow> string" where
  "stripUser needle = (if prefix ''user/'' needle then drop 5 needle else needle)"

text \<open>\<open>regexp.MustCompile(`[_-]`).ReplaceAllString(needle, ".*")\<close>.\<close>

definition wildcard :: "string \<Rightarrow> string" where
  "wildcard needle =
     concat (map (\<lambda>ch. if ch = CHR ''_'' \<or> ch = CHR ''-'' then ''.*'' else [ch]) needle)"

text \<open>
  The body of \<open>for identifier, fields := range c.Servers\<close>, the same in the five
  lookups but for the type key: \<open>res\<close> and \<open>exactMatches\<close> are the two slices the loop
  appends to.
\<close>

fun lookUpLoop ::
  "ext \<Rightarrow> int \<Rightarrow> (string \<Rightarrow> bool) \<Rightarrow> string \<Rightarrow> (string \<times> fields) list \<Rightarrow>
   ScalewayResolverResults \<Rightarrow> ScalewayResolverResults \<Rightarrow>
   ScalewayResolverResults \<times> ScalewayResolverResults" where
  "lookUpLoop E ty nameRegex needle [] res exactMatches = (res, exactMatches)"
| "lookUpLoop E ty nameRegex needle ((identifier, flds) # rest) res exactMatches =
     (let exactMatches =
            (if TITLE flds = needle
             then exactMatches @
                    [ComputeRankMatch E
                       \<lparr>Identifier = identifier, Type = ty, Name = TITLE flds, Needle = [], RankMatch = 0\<rparr>
                       needle]
             else exactMatches);
          res =
            (if prefix needle identifier \<or> nameRegex (TITLE flds)
             then res @
                    [ComputeRankMatch E
                       \<lparr>Identifier = identifier, Type = ty, Name = TITLE flds, Needle = [], RankMatch = 0\<rparr>
                       needle]
             else res)
      in lookUpLoop E ty nameRegex needle rest res exactMatches)"

text \<open>
  \<open>removeDuplicatesResults\<close>: the map \<open>encountered\<close> is filled in the order of the
  slice, a later element replacing an earlier one with the same identifier, and its
  values are collected. Go leaves the order of the second loop unspecified; the model
  takes the order in which the keys were first stored.
\<close>

definition removeDuplicatesResults :: "ScalewayResolverResults \<Rightarrow> ScalewayResolverResults" where
  "removeDuplicatesResults elements =
     (let encountered = fold (\<lambda>e m. AList.update (Identifier e) e m) elements []
      in map snd encountered)"

definition LookUpImages ::
  "ext \<Rightarrow> ScalewayCache \<Rightarrow> string \<Rightarrow> bool \<Rightarrow> error + ScalewayResolverResults" where
  "LookUpImages E c needle acceptUUID =
     (let res = (if acceptUUID \<and> anonuuid_IsUUID E needle
                 then [ComputeRankMatch E
                         \<lparr>Identifier = needle, Type = IdentifierImage, Name = needle, Needle = [], RankMatch = 0\<rparr>
                         needle]
                 else []);
          needle = stripUser needle
      in case regexp_MustCompile E (''(?i)'' @ wildcard needle) of
           None \<Rightarrow> Inl PanicRegexp
         | Some nameRegex \<Rightarrow>
             (case lookUpLoop E IdentifierImage nameRegex needle (entries (Images c)) res [] of
                (res, exactMatches) \<Rightarrow>
                  Inr (if length exactMatches = 1 then exactMatches
                       else removeDuplicatesResults res)))"

definition LookUpSnapshots ::
  "ext \<Rightarrow> ScalewayCache \<Rightarrow> string \<Rightarrow> bool \<Rightarrow> error + ScalewayResolverResults" where
  "LookUpSnapshots E c needle acceptUUID =
     (let res = (if acceptUUID \<and> anonuuid_IsUUID E needle
                 then [ComputeRankMatch E
                         \<lparr>Identifier = needle, Type = IdentifierSnapshot, Name = needle, Needle = [], RankMatch = 0\<rparr>
                         needle]
                 else []);
          needle = stripUser needle
      in case regexp_MustCompile E (''(?i)'' @ wildcard needle) of
           None \<Rightarrow> Inl PanicRegexp
         | Some nameRegex \<Rightarrow>
             (case lookUpLoop E IdentifierSnapshot nameRegex needle (entries (Snapshots c)) res [] of
                (res, exactMatches) \<Rightarrow>
                  Inr (if length exactMatches = 1 then exactMatches
                       else removeDuplicatesResults res)))"

definition LookUpVolumes ::
  "ext \<Rightarrow> ScalewayCache \<Rightarrow> string \<Rightarrow> bool \<Rightarrow> error + ScalewayResolverResults" where
  "LookUpVolumes E c needle acceptUUID =
     (let res = (if acceptUUID \<and> anonuuid_IsUUID E needle
                 then [ComputeRankMatch E
                         \<lparr>Identifier = needle, Type = IdentifierVolume, Name = needle, Needle = [], RankMatch = 0\<rparr>
                         needle]
                 else [])
      in case regexp_MustCompile E (''(?i)'' @ wildcard needle) of
           None \<Rightarrow> Inl PanicRegexp
         | Some nameRegex \<Rightarrow>
             (case lookUpLoop E IdentifierVolume nameRegex needle (entries (Volumes c)) res [] of
                (res, exactMatches) \<Rightarrow>
                  Inr (if length exactMatches = 1 then exactMatches
                       else removeDuplicatesResults res)))"

definition LookUpBootscripts ::
  "ext \<Rightarrow> ScalewayCache \<Rightarrow> string \<Rightarrow> bool \<Rightarrow> error + ScalewayResolverResults" where
  "LookUpBootscripts E c needle acceptUUID =
     (let res = (if acceptUUID \<and> anonuuid_IsUUID E needle
                 then [ComputeRankMatch E
                         \<lparr>Identifier = needle, Type = IdentifierBootscript, Name = needle, Needle = [], RankMatch = 0\<rparr>
                         needle]
                 else [])
      in case regexp_MustCompile E (''(?i)'' @ wildcard needle) of
           None \<Rightarrow> Inl PanicRegexp
         | Some nameRegex \<Rightarrow>
             (case lookUpLoop E IdentifierBootscript nameRegex needle (entries (Bootscripts c)) res [] of
                (res, exactMatches) \<Rightarrow>
                  Inr (if length exactMatches = 1 then exactMatches
                       else removeDuplicatesResults res)))"

definition LookUpServers ::
  "ext \<Rightarrow> ScalewayCache \<Rightarrow> string \<Rightarrow> bool \<Rightarrow> error + ScalewayResolverResults" where
  "LookUpServers E c needle acceptUUID =
     (let res = (if acceptUUID \<and> anonuuid_IsUUID E needle
                 then [ComputeRankMatch E
                         \<lparr>Identifier = needle, Type = IdentifierServer, Name = needle, Needle = [], RankMatch = 0\<rparr>
                         needle]
                 else [])
      in case regexp_MustCompile E (''(?i)'' @ wildcard needle) of
           None \<Rightarrow> Inl PanicRegexp
         | Some nameRegex \<Rightarrow>
             (case lookUpLoop E IdentifierServer nameRegex needle (entries (Servers c)) res [] of
                (res, exactMatches) \<Rightarrow>
                  Inr (if length exactMatches = 1 then exactMatches
                       else removeDuplicatesResults res)))"

subsection \<open>Unified lookup\<close>

text \<open>\<open>strings.Split(input, ":")\<close>: the pieces of the input between the colons.\<close>

primrec splitOn :: "char \<Rightarrow> string \<Rightarrow> string list" where
  "splitOn sep [] = [[]]"
| "splitOn sep (x # xs) =
     (if x = sep then [] # splitOn sep xs
      else (case splitOn sep xs of p # ps \<Rightarrow> (x # p) # ps | [] \<Rightarrow> [[x]]))"

definition parseNeedle :: "string \<Rightarrow> int \<times> string" where
  "parseNeedle input =
     (let parts = splitOn CHR '':'' input in
      if length parts = 2 then
        (if parts ! 0 = ''server'' then (IdentifierServer, parts ! 1)
         else if parts ! 0 = ''image'' then (IdentifierImage, parts ! 1)
         else if parts ! 0 = ''snapshot'' then (IdentifierSnapshot, parts ! 1)
         else if parts ! 0 = ''bootscript'' then (IdentifierBootscript, parts ! 1)
         else if parts ! 0 = ''volume'' then (IdentifierVolume, parts ! 1)
         else (IdentifierUnknown, input))
      else (IdentifierUnknown, input))"

text \<open>
  The body of each \<open>for _, result := range c.LookUp...(needle, false)\<close>: a fresh entry
  with the identifier and name of the result and the type key of the block, ranked
  against the parsed needle.
\<close>

definition retag :: "ext \<Rightarrow> int \<Rightarrow> string \<Rightarrow> ScalewayResolverResult \<Rightarrow> ScalewayResolverResult" where
  "retag E ty needle result =
     ComputeRankMatch E
       \<lparr>Identifier = Identifier result, Type = ty, Name = Name result, Needle = [], RankMatch = 0\<rparr>
       needle"

definition LookUpIdentifiers :: "ext \<Rightarrow> ScalewayCache \<Rightarrow> string \<Rightarrow> error + ScalewayResolverResults" where
  "LookUpIdentifiers E c input =
     (case parseNeedle input of (identifierType, needle) \<Rightarrow>
      (case (if and identifierType (or IdentifierUnknown IdentifierServer) > 0
             then LookUpServers E c needle False else Inr []) of
         Inl e \<Rightarrow> Inl e
       | Inr rs1 \<Rightarrow>
      (case (if and identifierType (or IdentifierUnknown IdentifierImage) > 0
             then LookUpImages E c needle False else Inr []) of
         Inl e \<Rightarrow> Inl e
       | Inr rs2 \<Rightarrow>
      (case (if and identifierType (or IdentifierUnknown IdentifierSnapshot) > 0
             then LookUpSnapshots E c needle False else Inr []) of
         Inl e \<Rightarrow> Inl e
       | Inr rs3 \<Rightarrow>
      (case (if and identifierType (or IdentifierUnknown IdentifierVolume) > 0
             then LookUpVolumes E c needle False else Inr []) of
         Inl e \<Rightarrow> Inl e
       | Inr rs4 \<Rightarrow>
      (case (if and identifierType (or IdentifierUnknown IdentifierBootscript) > 0
             then LookUpBootscripts E c needle False else Inr []) of
         Inl e \<Rightarrow> Inl e
       | Inr rs5 \<Rightarrow>
           Inr (map (retag E IdentifierServer needle) rs1 @
                map (retag E IdentifierImage needle) rs2 @
                map (retag E IdentifierSnapshot needle) rs3 @
                map (retag E IdentifierVolume needle) rs4 @
                map (retag E IdentifierBootscript needle) rs5)))))))"

subsection \<open>Paths, files and the operating system\<close>

text \<open>
  Package \<open>path/filepath\<close> on a system whose separator is \<open>/\<close>. \<open>Clean\<close> drops empty
  and \<open>.\<close> elements, lets a \<open>..\<close> cancel the element before it (or vanish at the
  root), and turns an empty result into \<open>.\<close>.
\<close>

definition cleanStep :: "bool \<Rightarrow> string \<Rightarrow> string list \<Rightarrow> string list" where
  "cleanStep rooted e out =
     (if e = [] \<or> e = ''.'' then out
      else if e = ''..'' then
        (if out \<noteq> [] \<and> last out \<noteq> ''..'' then butlast out
         else if rooted then out
         else out @ [''..''])
      else out @ [e])"

text \<open>\<open>strings.Join(elems, sep)\<close>.\<close>

fun strings_Join :: "string list \<Rightarrow> string \<Rightarrow> string" where
  "strings_Join [] sep = []"
| "strings_Join [e] sep = e"
| "strings_Join (e # es) sep = e @ sep @ strings_Join es sep"

definition filepath_Clean :: "string \<Rightarrow> string" where
  "filepath_Clean path =
     (if path = [] then ''.''
      else
        (let rooted = (hd path = CHR ''/'');
             out = fold (cleanStep rooted) (splitOn CHR ''/'' path) []
         in if rooted then ''/'' @ strings_Join out ''/''
            else if out = [] then ''.''
            else strings_Join out ''/''))"

definition filepath_Join :: "string \<Rightarrow> string \<Rightarrow> string" where
  "filepath_Join a b =
     (if a \<noteq> [] then filepath_Clean (a @ ''/'' @ b)
      else if b \<noteq> [] then filepath_Clean b
      else [])"

text \<open>\<open>Dir\<close>: the path up to its last separator, cleaned.\<close>

definition filepath_Dir :: "string \<Rightarrow> string" where
  "filepath_Dir path = filepath_Clean (rev (dropWhile (\<lambda>ch. ch \<noteq> CHR ''/'') (rev path)))"

text \<open>\<open>Base\<close>: the last element of the path, trailing separators removed first.\<close>

definition filepath_Base :: "string \<Rightarrow> string" where
  "filepath_Base path =
     (if path = [] then ''.''
      else
        (let p = rev (dropWhile (\<lambda>ch. ch = CHR ''/'') (rev path));
             e = rev (takeWhile (\<lambda>ch. ch \<noteq> CHR ''/'') (rev p))
         in if e = [] then ''/'' else e))"

text \<open>
  The part of the machine the persistence code touches: the files by path, the
  environment, the suffix \<open>ioutil.TempFile\<close> draws for its file name, and the set of
  system calls that fail for a reason the model does not describe (permissions, a
  full disk, a failing device). Directories are not modelled; the empty path names
  no file.
\<close>

datatype sysop = OpStat | OpReadFile | OpRemove | OpOpenFile | OpTempFile | OpWrite | OpRename

record world =
  files :: "string \<Rightarrow> string option"
  getenv :: "string \<Rightarrow> string"
  suffix :: string
  failing :: "sysop \<Rightarrow> bool"

definition os_Stat :: "world \<Rightarrow> string \<Rightarrow> error option" where
  "os_Stat w name =
     (if name = [] \<or> files w name = None then Some ErrNotExist
      else if failing w OpStat then Some ErrIO
      else None)"

definition ioutil_ReadFile :: "world \<Rightarrow> string \<Rightarrow> error + string" where
  "ioutil_ReadFile w name =
     (if name = [] then Inl ErrNotExist
      else case files w name of
             None \<Rightarrow> Inl ErrNotExist
           | Some bytes \<Rightarrow> if failing w OpReadFile then Inl ErrIO else Inr bytes)"

definition os_Remove :: "world \<Rightarrow> string \<Rightarrow> error option \<times> world" where
  "os_Remove w name =
     (if name = [] \<or> files w name = None then (Some ErrNotExist, w)
      else if failing w OpRemove then (Some ErrIO, w)
      else (None, w\<lparr>files := (files w)(name := None)\<rparr>))"

text \<open>\<open>os.OpenFile(name, O_RDWR|O_CREATE|O_TRUNC, 0600)\<close>, the file closed again.\<close>

definition os_OpenFile :: "world \<Rightarrow> string \<Rightarrow> error option \<times> world" where
  "os_OpenFile w name =
     (if name = [] then (Some ErrNotExist, w)
      else if failing w OpOpenFile then (Some ErrIO, w)
      else (None, w\<lparr>files := (files w)(name \<mapsto> [])\<rparr>))"

text \<open>
  \<open>ioutil.TempFile(dir, prefix)\<close> creates a new file named \<open>prefix\<close> followed by a
  random suffix in \<open>dir\<close>, trying other suffixes when the name is taken. The suffix
  of the world is the one the call ends with: when that name is taken too, every
  attempt was, and the call fails.
\<close>

definition ioutil_TempFile :: "world \<Rightarrow> string \<Rightarrow> string \<Rightarrow> (error + string) \<times> world" where
  "ioutil_TempFile w dir pfx =
     (let name = filepath_Join dir (pfx @ suffix w) in
      if failing w OpTempFile then (Inl ErrIO, w)
      else if files w name \<noteq> None then (Inl ErrExist, w)
      else (Inr name, w\<lparr>files := (files w)(name \<mapsto> [])\<rparr>))"

text \<open>Writing the whole content of an open file, as \<open>Encoder.Encode\<close> does in one call.\<close>

definition writeFile :: "world \<Rightarrow> string \<Rightarrow> string \<Rightarrow> error option \<times> world" where
  "writeFile w name bytes =
     (if failing w OpWrite then (Some ErrIO, w)
      else (None, w\<lparr>files := (files w)(name \<mapsto> bytes)\<rparr>))"

definition os_Rename :: "world \<Rightarrow> string \<Rightarrow> string \<Rightarrow> error option \<times> world" where
  "os_Rename w oldpath newpath =
     (case files w oldpath of
        None \<Rightarrow> (Some ErrNotExist, w)
      | Some bytes \<Rightarrow>
          if newpath = [] then (Some ErrNotExist, w)
          else if failing w OpRename then (Some ErrIO, w)
          else (None, w\<lparr>files := ((files w)(oldpath := None))(newpath \<mapsto> bytes)\<rparr>))"

subsection \<open>Loading and saving the cache file\<close>

text \<open>The fields of the store that are written to the file: all but \<open>Path\<close>, \<open>Modified\<close> and \<open>Lock\<close>.\<close>

definition exportedFields :: "ScalewayCache \<Rightarrow> json_doc" where
  "exportedFields c =
     \<lparr>images = Images c, snapshots = Snapshots c, volumes = Volumes c,
      bootscripts = Bootscripts c, servers = Servers c\<rparr>"

definition setExported :: "json_doc \<Rightarrow> ScalewayCache \<Rightarrow> ScalewayCache" where
  "setExported d c =
     c\<lparr>Images := images d, Snapshots := snapshots d, Volumes := volumes d,
       Bootscripts := bootscripts d, Servers := servers d\<rparr>"

text \<open>The zero value \<open>ScalewayCache{}\<close>.\<close>

definition zeroCache :: ScalewayCache where
  "zeroCache =
     \<lparr>Images = None, Snapshots = None, Volumes = None, Bootscripts = None, Servers = None,
      Path = [], Modified = False\<rparr>"

definition homeDir :: "world \<Rightarrow> string" where
  "homeDir w =
     (let homeDir = getenv w ''HOME'';
          homeDir = (if homeDir = [] then getenv w ''USERPROFILE'' else homeDir);
          homeDir = (if homeDir = [] then ''/tmp'' else homeDir)
      in homeDir)"

definition cachePath :: "world \<Rightarrow> string" where
  "cachePath w = filepath_Join (homeDir w) ''.scw-cache.db''"

text \<open>The five \<open>if cache.X == nil\<close> at the end of \<open>NewScalewayCache\<close>.\<close>

definition initNilMaps :: "ScalewayCache \<Rightarrow> ScalewayCache" where
  "initNilMaps cache =
     (let cache = (if Images cache = None then cache\<lparr>Images := make_map\<rparr> else cache);
          cache = (if Snapshots cache = None then cache\<lparr>Snapshots := make_map\<rparr> else cache);
          cache = (if Volumes cache = None then cache\<lparr>Volumes := make_map\<rparr> else cache);
          cache = (if Servers cache = None then cache\<lparr>Servers := make_map\<rparr> else cache);
          cache = (if Bootscripts cache = None then cache\<lparr>Bootscripts := make_map\<rparr> else cache)
      in cache)"

definition NewScalewayCache :: "ext \<Rightarrow> world \<Rightarrow> (error + ScalewayCache) \<times> world" where
  "NewScalewayCache E w =
     (let cachePath = cachePath w in
      case os_Stat w cachePath of
        Some err \<Rightarrow>
          if err = ErrNotExist then
            (Inr \<lparr>Images = make_map, Snapshots = make_map, Volumes = make_map,
                  Bootscripts = make_map, Servers = make_map, Path = cachePath,
                  Modified = False\<rparr>, w)
          else (Inl err, w)
      | None \<Rightarrow>
          (case ioutil_ReadFile w cachePath of
             Inl err \<Rightarrow> (Inl err, w)
           | Inr file \<Rightarrow>
               (let cache = zeroCache\<lparr>Path := cachePath\<rparr> in
                case json_Unmarshal E file (exportedFields cache) of
                  (None, d) \<Rightarrow> (Inr (initNilMaps (setExported d cache)), w)
                | (Some _, _) \<Rightarrow>
                    (let cache = zeroCache in
                     case os_Remove w cachePath of
                       (Some err, w) \<Rightarrow> (Inl err, w)
                     | (None, w) \<Rightarrow>
                         (case os_OpenFile w cachePath of
                            (Some err, w) \<Rightarrow> (Inl err, w)
                          | (None, w) \<Rightarrow>
                              (let cache = setExported
                                             (snd (json_Unmarshal E file (exportedFields cache)))
                                             cache
                               in (Inr (initNilMaps cache), w)))))))"

definition Flush :: "world \<Rightarrow> ScalewayCache \<Rightarrow> error option \<times> world" where
  "Flush w c = os_Remove w (Path c)"

text \<open>
  \<open>Save\<close> returns its error (\<open>None\<close> is \<open>nil\<close>), the files afterwards and the store
  afterwards.
\<close>

definition Save :: "ext \<Rightarrow> world \<Rightarrow> ScalewayCache \<Rightarrow> error option \<times> world \<times> ScalewayCache" where
  "Save E w c =
     (if Modified c then
        (case ioutil_TempFile w (filepath_Dir (Path c)) (filepath_Base (Path c)) of
           (Inl err, w) \<Rightarrow> (Some err, w, c)
         | (Inr name, w) \<Rightarrow>
             (case writeFile w name (json_Encode E (exportedFields c)) of
                (Some err, w) \<Rightarrow> (Some err, snd (os_Remove w name), c)
              | (None, w) \<Rightarrow>
                  (case os_Rename w name (Path c) of
                     (Some err, w) \<Rightarrow> (Some err, snd (os_Remove w name), c)
                   | (None, w) \<Rightarrow> (None, w, c))))
      else (None, w, c))"

subsection \<open>The five resource kinds, and notions for the statements\<close>

text \<open>
  The source repeats every operation once per resource kind. The datatype \<open>kind\<close>
  names the five kinds, and the functions below select the operation, the table and
  the type constant of a kind, so that a property of all five is one statement.
\<close>

datatype kind = Server | Image | Snapshot | Volume | Bootscript

definition table :: "kind \<Rightarrow> ScalewayCache \<Rightarrow> gomap" where
  "table k c = (case k of Server \<Rightarrow> Servers c | Image \<Rightarrow> Images c | Snapshot \<Rightarrow> Snapshots c
                | Volume \<Rightarrow> Volumes c | Bootscript \<Rightarrow> Bootscripts c)"

definition with_table :: "kind \<Rightarrow> gomap \<Rightarrow> ScalewayCache \<Rightarrow> ScalewayCache" where
  "with_table k m c = (case k of Server \<Rightarrow> c\<lparr>Servers := m\<rparr> | Image \<Rightarrow> c\<lparr>Images := m\<rparr>
                | Snapshot \<Rightarrow> c\<lparr>Snapshots := m\<rparr> | Volume \<Rightarrow> c\<lparr>Volumes := m\<rparr>
                | Bootscript \<Rightarrow> c\<lparr>Bootscripts := m\<rparr>)"

definition Insert ::
  "kind \<Rightarrow> ScalewayCache \<Rightarrow> string \<Rightarrow> string \<Rightarrow> string \<Rightarrow> string \<Rightarrow> string \<Rightarrow> error + ScalewayCache" where
  "Insert k = (case k of Server \<Rightarrow> InsertServer | Image \<Rightarrow> InsertImage | Snapshot \<Rightarrow> InsertSnapshot
                | Volume \<Rightarrow> InsertVolume | Bootscript \<Rightarrow> InsertBootscript)"

definition kindType :: "kind \<Rightarrow> int" where
  "kindType k = (case k of Server \<Rightarrow> IdentifierServer | Image \<Rightarrow> IdentifierImage
                | Snapshot \<Rightarrow> IdentifierSnapshot | Volume \<Rightarrow> IdentifierVolume
                | Bootscript \<Rightarrow> IdentifierBootscript)"

definition LookUp ::
  "ext \<Rightarrow> kind \<Rightarrow> ScalewayCache \<Rightarrow> string \<Rightarrow> bool \<Rightarrow> error + ScalewayResolverResults" where
  "LookUp E k = (case k of Server \<Rightarrow> LookUpServers E | Image \<Rightarrow> LookUpImages E
                | Snapshot \<Rightarrow> LookUpSnapshots E | Volume \<Rightarrow> LookUpVolumes E
                | Bootscript \<Rightarrow> LookUpBootscripts E)"

text \<open>
  The needle a lookup of the kind compares titles and identifiers with: \<open>LookUpImages\<close>
  and \<open>LookUpSnapshots\<close> strip a leading \<open>user/\<close>, the other three lookups do not.
\<close>

definition normalized :: "kind \<Rightarrow> string \<Rightarrow> string" where
  "normalized k needle = (case k of Image \<Rightarrow> stripUser needle | Snapshot \<Rightarrow> stripUser needle
                | _ \<Rightarrow> needle)"

text \<open>The result entry of a stored record, ranked against a needle.\<close>

definition entryOf :: "ext \<Rightarrow> int \<Rightarrow> string \<Rightarrow> string \<times> fields \<Rightarrow> ScalewayResolverResult" where
  "entryOf E ty needle p =
     \<lparr>Identifier = fst p, Type = ty, Name = TITLE (snd p), Needle = needle,
      RankMatch = fuzzy_RankMatch E needle (TITLE (snd p))\<rparr>"

text \<open>The stored records whose title equals the needle.\<close>

definition exactRecords :: "string \<Rightarrow> gomap \<Rightarrow> (string \<times> fields) list" where
  "exactRecords needle m = filter (\<lambda>p. TITLE (snd p) = needle) (entries m)"

text \<open>
  The stored records whose identifier starts with the needle or whose title the
  compiled pattern matches.
\<close>

definition generalRecords :: "(string \<Rightarrow> bool) \<Rightarrow> string \<Rightarrow> gomap \<Rightarrow> (string \<times> fields) list" where
  "generalRecords nameRegex needle m =
     filter (\<lambda>p. prefix needle (fst p) \<or> nameRegex (TITLE (snd p))) (entries m)"

text \<open>
  The synthetic candidate of a lookup that accepts identifiers: identifier and name are
  the needle as typed.
\<close>

definition uuidCandidate :: "ext \<Rightarrow> int \<Rightarrow> string \<Rightarrow> ScalewayResolverResult" where
  "uuidCandidate E ty needle =
     \<lparr>Identifier = needle, Type = ty, Name = needle, Needle = needle,
      RankMatch = fuzzy_RankMatch E needle needle\<rparr>"

text \<open>The general-matches list of a lookup, before duplicates are removed.\<close>

definition generalMatches ::
  "ext \<Rightarrow> kind \<Rightarrow> (string \<Rightarrow> bool) \<Rightarrow> ScalewayCache \<Rightarrow> string \<Rightarrow> bool \<Rightarrow> ScalewayResolverResults" where
  "generalMatches E k nameRegex c needle acceptUUID =
     (if acceptUUID \<and> anonuuid_IsUUID E needle then [uuidCandidate E (kindType k) needle] else []) @
     map (entryOf E (kindType k) (normalized k needle))
       (generalRecords nameRegex (normalized k needle) (table k c))"

text \<open>
  The per-kind lookup algorithm in the words of the spec, for one table: \<open>typed\<close> is the
  needle as the caller gave it, which alone decides the synthetic candidate, and
  \<open>needle\<close> is the needle that titles and identifiers are compared with and from which
  the pattern is built.
\<close>

definition perKindLookup ::
  "ext \<Rightarrow> int \<Rightarrow> gomap \<Rightarrow> string \<Rightarrow> string \<Rightarrow> bool \<Rightarrow> error + ScalewayResolverResults" where
  "perKindLookup E ty m typed needle acceptUUID =
     (case regexp_MustCompile E (''(?i)'' @ wildcard needle) of
        None \<Rightarrow> Inl PanicRegexp
      | Some nameRegex \<Rightarrow>
          Inr (if length (exactRecords needle m) = 1
               then map (entryOf E ty needle) (exactRecords needle m)
               else removeDuplicatesResults
                      ((if acceptUUID \<and> anonuuid_IsUUID E typed then [uuidCandidate E ty typed] else []) @
                       map (entryOf E ty needle) (generalRecords nameRegex needle m))))"

text \<open>The tag of a kind in a needle such as \<open>server:web\<close>.\<close>

definition tagOf :: "kind \<Rightarrow> string" where
  "tagOf k = (case k of Server \<Rightarrow> ''server'' | Image \<Rightarrow> ''image'' | Snapshot \<Rightarrow> ''snapshot''
                | Volume \<Rightarrow> ''volume'' | Bootscript \<Rightarrow> ''bootscript'')"

text \<open>
  One block of \<open>LookUpIdentifiers\<close>: the lookup of kind \<open>j\<close> runs when the parsed type
  key has a bit in common with \<open>IdentifierUnknown | j\<close>.
\<close>

definition block :: "ext \<Rightarrow> ScalewayCache \<Rightarrow> int \<Rightarrow> string \<Rightarrow> kind \<Rightarrow> error + ScalewayResolverResults" where
  "block E c identifierType needle j =
     (if and identifierType (or IdentifierUnknown (kindType j)) > 0
      then LookUp E j c needle False else Inr [])"

text \<open>The table of a kind in the exported fields.\<close>

definition docTable :: "kind \<Rightarrow> json_doc \<Rightarrow> gomap" where
  "docTable k d = (case k of Server \<Rightarrow> servers d | Image \<Rightarrow> images d | Snapshot \<Rightarrow> snapshots d
                | Volume \<Rightarrow> volumes d | Bootscript \<Rightarrow> bootscripts d)"

text \<open>No record exists for the identifier, or the existing record has another title.\<close>

definition absent_or_retitled :: "gomap \<Rightarrow> string \<Rightarrow> string \<Rightarrow> bool" where
  "absent_or_retitled m identifier name =
     (case mapIndex m identifier of None \<Rightarrow> True | Some flds \<Rightarrow> TITLE flds \<noteq> name)"

subsection \<open>Samples: external packages, stores and machines\<close>

text \<open>
  The examples below evaluate the model on concrete inputs, which needs concrete
  functions in place of the external packages. \<open>sampleRegexp\<close> covers the patterns
  that arise from needles made of letters, digits, \<open>/\<close>, \<open>:\<close>, \<open>_\<close> and \<open>-\<close>: the
  flag \<open>(?i)\<close>, then literal characters and \<open>.*\<close>, matched anywhere in the text
  without regard to the case of ASCII letters, \<open>.\<close> standing for any character but a
  newline. It also knows that an unclosed parenthesis does not parse. Every other
  pattern is outside the sample, which answers \<open>None\<close> for it; the examples use no
  such pattern.
\<close>

datatype pat_item = Lit char | AnyStar

fun parsePattern :: "string \<Rightarrow> pat_item list option" where
  "parsePattern [] = Some []"
| "parsePattern (x # xs) =
     (if x = CHR ''.'' then
        (case xs of
           y # ys \<Rightarrow> if y = CHR ''*'' then map_option (Cons AnyStar) (parsePattern ys) else None
         | [] \<Rightarrow> None)
      else if x = CHR 0x5C \<or> x \<in> set ''+*?()|[]{}^$'' then None
      else map_option (Cons (Lit x)) (parsePattern xs))"

definition lowerASCII :: "char \<Rightarrow> char" where
  "lowerASCII ch =
     (let n = (of_char ch :: nat) in if 65 \<le> n \<and> n \<le> 90 then char_of (n + 32) else ch)"

fun matchHere :: "pat_item list \<Rightarrow> string \<Rightarrow> bool" where
  "matchHere [] s = True"
| "matchHere (Lit ch # r) [] = False"
| "matchHere (Lit ch # r) (x # s) = (lowerASCII ch = lowerASCII x \<and> matchHere r s)"
| "matchHere (AnyStar # r) [] = matchHere r []"
| "matchHere (AnyStar # r) (x # s) =
     (matchHere r (x # s) \<or> (x \<noteq> CHR 0x0A \<and> matchHere (AnyStar # r) s))"

fun matchAnywhere :: "pat_item list \<Rightarrow> string \<Rightarrow> bool" where
  "matchAnywhere p [] = matchHere p []"
| "matchAnywhere p (x # s) = (matchHere p (x # s) \<or> matchAnywhere p s)"

definition sampleRegexp :: "string \<Rightarrow> (string \<Rightarrow> bool) option" where
  "sampleRegexp pattern =
     (if prefix ''(?i)'' pattern then map_option matchAnywhere (parsePattern (drop 4 pattern))
      else None)"

text \<open>
  The textual form of an identifier: five groups of 8, 4, 4, 4 and 12 lower-case
  letters or digits, separated by \<open>-\<close>, the third group starting with a digit from 1
  to 5.
\<close>

definition sampleIsUUID :: "string \<Rightarrow> bool" where
  "sampleIsUUID s =
     (let parts = splitOn CHR ''-'' s in
      map length parts = [8, 4, 4, 4, 12] \<and>
      list_all (list_all (\<lambda>ch. ch \<in> set ''abcdefghijklmnopqrstuvwxyz0123456789'')) parts \<and>
      hd (parts ! 2) \<in> set ''12345'')"

text \<open>
  A stand-in for the score of the fuzzy-search package, whose code is not part of the
  sources: the number of characters the name has beyond the needle. The theorems hold
  for every score; the examples show the values of this one.
\<close>

definition sampleRank :: "string \<Rightarrow> string \<Rightarrow> int" where
  "sampleRank needle name = int (length name) - int (length needle)"

definition exampleCache :: ScalewayCache where
  "exampleCache =
     \<lparr>Images = Some [(''i1'', \<lparr>REGION = ''par1'', ARCH = ''arm'', OWNER = ''me'', TITLE = ''ubuntu''\<rparr>)],
      Snapshots = Some [],
      Volumes = Some [],
      Bootscripts = Some [],
      Servers = Some [(''s1'', \<lparr>REGION = ''par1'', ARCH = ''arm'', OWNER = ''me'', TITLE = ''web''\<rparr>),
                      (''s2'', \<lparr>REGION = ''par1'', ARCH = ''arm'', OWNER = ''me'', TITLE = ''web2''\<rparr>)],
      Path = ''/home/u/.scw-cache.db'',
      Modified = False\<rparr>"

text \<open>Stores for the examples: a server without a title, a server whose title is an
  identifier, a server whose title is an opening parenthesis, and an image whose title
  contains colons.\<close>

definition emptyCache :: ScalewayCache where
  "emptyCache =
     \<lparr>Images = Some [], Snapshots = Some [], Volumes = Some [], Bootscripts = Some [],
      Servers = Some [], Path = ''/home/u/.scw-cache.db'', Modified = False\<rparr>"

definition blankTitleCache :: ScalewayCache where
  "blankTitleCache =
     emptyCache\<lparr>Servers :=
       Some [(''s1'', \<lparr>REGION = ''par1'', ARCH = ''arm'', OWNER = ''me'', TITLE = []\<rparr>),
             (''s2'', \<lparr>REGION = ''par1'', ARCH = ''arm'', OWNER = ''me'', TITLE = ''web''\<rparr>)]\<rparr>"

definition uuidTitleCache :: ScalewayCache where
  "uuidTitleCache =
     emptyCache\<lparr>Servers :=
       Some [(''s9'', \<lparr>REGION = ''par1'', ARCH = ''arm'', OWNER = ''me'',
                      TITLE = ''11111111-1111-1111-1111-111111111111''\<rparr>)]\<rparr>"

definition parenCache :: ScalewayCache where
  "parenCache =
     emptyCache\<lparr>Servers :=
       Some [(''s1'', \<lparr>REGION = ''par1'', ARCH = ''arm'', OWNER = ''me'', TITLE = ''(''\<rparr>)]\<rparr>"

definition colonCache :: ScalewayCache where
  "colonCache =
     emptyCache\<lparr>Servers :=
       Some [(''s7'', \<lparr>REGION = ''par1'', ARCH = ''arm'', OWNER = ''me'', TITLE = ''a:b''\<rparr>)],
       Images :=
       Some [(''i7'', \<lparr>REGION = ''par1'', ARCH = ''arm'', OWNER = ''me'', TITLE = ''server:a:b''\<rparr>)]\<rparr>"

text \<open>
  A sample of package \<open>encoding/json\<close>. The encoder writes the five mappings under
  their tags, each record as an array of its four strings; it is the text Go writes
  for strings that need no escaping and mappings listed in the order of their keys.
  The decoder knows two texts, and takes every other text for a syntax error, which
  leaves the target as it was: the text of \<open>exampleCache\<close>, and \<open>mixedText\<close>, a
  document whose \<open>images\<close> member is a number. For a member of the wrong type
  \<open>json.Unmarshal\<close> skips the member, decodes the rest and returns an
  \<open>UnmarshalTypeError\<close>.
\<close>

definition quoteJSON :: "string \<Rightarrow> string" where
  "quoteJSON s = [CHR 0x22] @ s @ [CHR 0x22]"

definition encodeFields :: "fields \<Rightarrow> string" where
  "encodeFields f =
     ''['' @ strings_Join (map quoteJSON [REGION f, ARCH f, OWNER f, TITLE f]) '','' @ '']''"

definition encodeMap :: "gomap \<Rightarrow> string" where
  "encodeMap m =
     (case m of
        None \<Rightarrow> ''null''
      | Some xs \<Rightarrow>
          ''{'' @ strings_Join (map (\<lambda>p. quoteJSON (fst p) @ '':'' @ encodeFields (snd p)) xs) '','' @ ''}'')"

definition sampleEncode :: "json_doc \<Rightarrow> string" where
  "sampleEncode d =
     ''{'' @ strings_Join
       [quoteJSON ''images'' @ '':'' @ encodeMap (images d),
        quoteJSON ''snapshots'' @ '':'' @ encodeMap (snapshots d),
        quoteJSON ''volumes'' @ '':'' @ encodeMap (volumes d),
        quoteJSON ''bootscripts'' @ '':'' @ encodeMap (bootscripts d),
        quoteJSON ''servers'' @ '':'' @ encodeMap (servers d)] '','' @ ''}'' @ [CHR 0x0A]"

definition mixedText :: string where
  "mixedText =
     ''{'' @ quoteJSON ''servers'' @ '':'' @
       encodeMap (Some [(''s1'', \<lparr>REGION = ''par1'', ARCH = ''arm'', OWNER = ''me'', TITLE = ''web''\<rparr>)]) @
     '','' @ quoteJSON ''images'' @ '':5}''"

definition sampleUnmarshal :: "string \<Rightarrow> json_doc \<Rightarrow> error option \<times> json_doc" where
  "sampleUnmarshal bytes d =
     (if d = exportedFields zeroCache \<and> bytes = sampleEncode (exportedFields exampleCache)
      then (None, exportedFields exampleCache)
      else if d = exportedFields zeroCache \<and> bytes = mixedText
      then (Some ErrJSON,
            d\<lparr>servers := Some [(''s1'', \<lparr>REGION = ''par1'', ARCH = ''arm'', OWNER = ''me'', TITLE = ''web''\<rparr>)]\<rparr>)
      else (Some ErrJSON, d))"

definition sampleExt :: ext where
  "sampleExt =
     \<lparr>regexp_MustCompile = sampleRegexp, anonuuid_IsUUID = sampleIsUUID,
      fuzzy_RankMatch = sampleRank, json_Encode = sampleEncode,
      json_Unmarshal = sampleUnmarshal\<rparr>"

text \<open>A machine with a home directory, no file and no failing system call.\<close>

definition exampleWorld :: world where
  "exampleWorld =
     \<lparr>files = (\<lambda>name. None),
      getenv = (\<lambda>key. if key = ''HOME'' then ''/home/u'' else []),
      suffix = ''731689'',
      failing = (\<lambda>call. False)\<rparr>"

text \<open>The machine of \<open>exampleWorld\<close> with a cache file of the given content.\<close>

definition cachedWorld :: "string \<Rightarrow> world" where
  "cachedWorld bytes =
     exampleWorld\<lparr>files := (\<lambda>name. if name = ''/home/u/.scw-cache.db'' then Some bytes else None)\<rparr>"

subsection \<open>The text of the cache file\<close>

text \<open>
  The part of package \<open>encoding/json\<close> that the cache file exercises, as the package
  documents it, for the type of the store: a struct of five mappings from strings to
  arrays of four strings. It serves the round trip through the file, which depends on
  what the encoder does to every string; the sample above knows two texts only.

  The encoder writes an object with the five members in the order of the struct
  fields, a nil mapping as \<open>null\<close>, a mapping as an object whose members are sorted by
  key, a record as an array of four strings, and ends the text with a newline. In a
  string it puts a backslash before the quotation mark and the backslash, writes
  newline, carriage return and tab as a backslash and the letter \<open>n\<close>, \<open>r\<close> or \<open>t\<close>,
  and writes every other byte below \<open>0x20\<close> and the characters \<open><\<close>, \<open>>\<close> and \<open>&\<close>
  as a backslash, the letter \<open>u\<close> and the four hexadecimal digits of the code point. It
  writes the code points U+2028 and U+2029 in that form too, and copies every other
  well-formed UTF-8 sequence. For a byte that starts no well-formed sequence it writes
  the escape of U+FFFD: the replacement character stands for that byte in the file.
  (Recent versions of the package have a short escape for the bytes \<open>0x08\<close> and \<open>0x0C\<close>;
  the decoder reads both forms alike.)

  A text is written and read as a sequence of tokens.
\<close>

datatype token = LBrace | RBrace | LBrack | RBrack | Colon | Comma | Null | Str string

definition hexDigit :: "nat \<Rightarrow> char" where
  "hexDigit n = (if n < 10 then char_of (48 + n) else char_of (87 + n))"

definition hexVal :: "char \<Rightarrow> nat option" where
  "hexVal ch =
     (let n = (of_char ch :: nat) in
      if 48 \<le> n \<and> n \<le> 57 then Some (n - 48)
      else if 97 \<le> n \<and> n \<le> 102 then Some (n - 87)
      else if 65 \<le> n \<and> n \<le> 70 then Some (n - 55)
      else None)"

definition hex4 :: "char \<Rightarrow> char \<Rightarrow> char \<Rightarrow> char \<Rightarrow> nat option" where
  "hex4 a b c d =
     (case (hexVal a, hexVal b, hexVal c, hexVal d) of
        (Some x, Some y, Some z, Some u) \<Rightarrow> Some (((x * 16 + y) * 16 + z) * 16 + u)
      | _ \<Rightarrow> None)"

definition inRange :: "nat \<Rightarrow> nat \<Rightarrow> char \<Rightarrow> bool" where
  "inRange lo hi ch = (lo \<le> (of_char ch :: nat) \<and> (of_char ch :: nat) \<le> hi)"

text \<open>
  The number of bytes of the well-formed UTF-8 sequence of two to four bytes at the
  head of a string, and \<open>0\<close> when there is none: what \<open>utf8.DecodeRuneInString\<close> reports
  as the width of a code point, a width of one with \<open>RuneError\<close> being \<open>0\<close> here. The
  second byte of a sequence is restricted after the first bytes \<open>E0\<close>, \<open>ED\<close>, \<open>F0\<close> and
  \<open>F4\<close>, which excludes overlong forms, surrogates and code points beyond U+10FFFF.
\<close>

definition runeWidth :: "string \<Rightarrow> nat" where
  "runeWidth s =
     (case s of
        [] \<Rightarrow> 0
      | b1 # s1 \<Rightarrow>
          if inRange 0xC2 0xDF b1 then
            (case s1 of b2 # _ \<Rightarrow> if inRange 0x80 0xBF b2 then 2 else 0 | _ \<Rightarrow> 0)
          else if inRange 0xE0 0xEF b1 then
            (case s1 of
               b2 # b3 # _ \<Rightarrow>
                 if inRange (if b1 = CHR 0xE0 then 0xA0 else 0x80)
                            (if b1 = CHR 0xED then 0x9F else 0xBF) b2
                    \<and> inRange 0x80 0xBF b3
                 then 3 else 0
             | _ \<Rightarrow> 0)
          else if inRange 0xF0 0xF4 b1 then
            (case s1 of
               b2 # b3 # b4 # _ \<Rightarrow>
                 if inRange (if b1 = CHR 0xF0 then 0x90 else 0x80)
                            (if b1 = CHR 0xF4 then 0x8F else 0xBF) b2
                    \<and> inRange 0x80 0xBF b3 \<and> inRange 0x80 0xBF b4
                 then 4 else 0
             | _ \<Rightarrow> 0)
          else 0)"

text \<open>\<open>utf8.ValidString\<close>: the string is a sequence of well-formed UTF-8 sequences.\<close>

fun utf8_ValidString :: "string \<Rightarrow> bool" where
  "utf8_ValidString [] = True"
| "utf8_ValidString (b # s) =
     (if (of_char b :: nat) < 0x80 then utf8_ValidString s
      else (case runeWidth (b # s) of 0 \<Rightarrow> False | Suc w \<Rightarrow> utf8_ValidString (drop w s)))"

text \<open>The UTF-8 sequence of a code point that is no surrogate.\<close>

definition utf8Encode :: "nat \<Rightarrow> string" where
  "utf8Encode n =
     (if n < 0x80 then [char_of n]
      else if n < 0x800 then [char_of (0xC0 + n div 64), char_of (0x80 + n mod 64)]
      else if n < 0x10000 then
        [char_of (0xE0 + n div 4096), char_of (0x80 + (n div 64) mod 64), char_of (0x80 + n mod 64)]
      else
        [char_of (0xF0 + n div 262144), char_of (0x80 + (n div 4096) mod 64),
         char_of (0x80 + (n div 64) mod 64), char_of (0x80 + n mod 64)])"

text \<open>The UTF-8 sequence of the replacement character U+FFFD.\<close>

definition replacementChar :: string where
  "replacementChar = [CHR 0xEF, CHR 0xBF, CHR 0xBD]"

text \<open>What the encoder writes for a byte below \<open>0x80\<close>, and for the content of a string.\<close>

definition escASCII :: "char \<Rightarrow> string" where
  "escASCII b =
     (if b = CHR 0x22 \<or> b = CHR 0x5C then [CHR 0x5C, b]
      else if b = CHR 0x0A then [CHR 0x5C, CHR ''n'']
      else if b = CHR 0x0D then [CHR 0x5C, CHR ''r'']
      else if b = CHR 0x09 then [CHR 0x5C, CHR ''t'']
      else if (of_char b :: nat) < 0x20 \<or> b = CHR ''<'' \<or> b = CHR ''>'' \<or> b = CHR ''&'' then
        [CHR 0x5C, CHR ''u'', CHR ''0'', CHR ''0'',
         hexDigit ((of_char b :: nat) div 16), hexDigit ((of_char b :: nat) mod 16)]
      else [b])"

fun encodeChars :: "string \<Rightarrow> string" where
  "encodeChars [] = []"
| "encodeChars (b # s) =
     (if (of_char b :: nat) < 0x80 then escASCII b @ encodeChars s
      else
        (case runeWidth (b # s) of
           0 \<Rightarrow> [CHR 0x5C, CHR ''u'', CHR ''f'', CHR ''f'', CHR ''f'', CHR ''d''] @ encodeChars s
         | Suc w \<Rightarrow>
             (if b # take w s = [CHR 0xE2, CHR 0x80, CHR 0xA8]
              then [CHR 0x5C, CHR ''u'', CHR ''2'', CHR ''0'', CHR ''2'', CHR ''8'']
              else if b # take w s = [CHR 0xE2, CHR 0x80, CHR 0xA9]
              then [CHR 0x5C, CHR ''u'', CHR ''2'', CHR ''0'', CHR ''2'', CHR ''9'']
              else b # take w s) @ encodeChars (drop w s)))"

definition render :: "token \<Rightarrow> string" where
  "render t =
     (case t of LBrace \<Rightarrow> ''{'' | RBrace \<Rightarrow> ''}'' | LBrack \<Rightarrow> ''['' | RBrack \<Rightarrow> '']''
      | Colon \<Rightarrow> '':'' | Comma \<Rightarrow> '','' | Null \<Rightarrow> ''null''
      | Str s \<Rightarrow> [CHR 0x22] @ encodeChars s @ [CHR 0x22])"

text \<open>The tokens of a record, of a mapping, of a member and of the whole document.\<close>

definition tokRecord :: "fields \<Rightarrow> token list" where
  "tokRecord f =
     [LBrack, Str (REGION f), Comma, Str (ARCH f), Comma, Str (OWNER f), Comma, Str (TITLE f), RBrack]"

definition tokEntry :: "string \<times> fields \<Rightarrow> token list" where
  "tokEntry p = Str (fst p) # Colon # tokRecord (snd p)"

fun tokEntries :: "(string \<times> fields) list \<Rightarrow> token list" where
  "tokEntries [] = []"
| "tokEntries [p] = tokEntry p"
| "tokEntries (p # q # ps) = tokEntry p @ Comma # tokEntries (q # ps)"

definition tokTable :: "gomap \<Rightarrow> token list" where
  "tokTable m =
     (case m of None \<Rightarrow> [Null] | Some xs \<Rightarrow> LBrace # tokEntries (sort_key fst xs) @ [RBrace])"

definition tokMember :: "string \<Rightarrow> gomap \<Rightarrow> token list" where
  "tokMember tag m = Str tag # Colon # tokTable m"

definition tokDoc :: "json_doc \<Rightarrow> token list" where
  "tokDoc d =
     LBrace # tokMember ''images'' (images d) @
     Comma # tokMember ''snapshots'' (snapshots d) @
     Comma # tokMember ''volumes'' (volumes d) @
     Comma # tokMember ''bootscripts'' (bootscripts d) @
     Comma # tokMember ''servers'' (servers d) @ [RBrace]"

text \<open>\<open>Encoder.Encode\<close> on a store whose exported fields are \<open>d\<close>.\<close>

definition encodeJSON :: "json_doc \<Rightarrow> string" where
  "encodeJSON d = concat (map render (tokDoc d)) @ [CHR 0x0A]"

text \<open>
  The decoder first cuts the text into tokens. The first argument of \<open>lexer\<close> is
  \<open>None\<close> between two tokens and \<open>Some acc\<close> inside a string whose content so far is
  \<open>acc\<close>. Between tokens it skips space, tab, newline and carriage return. In a string it
  rejects an unescaped byte below \<open>0x20\<close>, reads the escapes of one character and the
  escapes of four hexadecimal digits (two of them that form a surrogate pair as one
  code point, a lone surrogate as the replacement character), copies a well-formed
  UTF-8 sequence and replaces a byte that starts none by the replacement character.
  Numbers and the literals \<open>true\<close> and \<open>false\<close> do not occur in a cache file: the lexer
  has no token for them and reports the text as an error.
\<close>

definition unescape :: "char \<Rightarrow> char option" where
  "unescape e =
     (if e = CHR 0x22 \<or> e = CHR 0x5C \<or> e = CHR ''/'' then Some e
      else if e = CHR ''b'' then Some (CHR 0x08)
      else if e = CHR ''f'' then Some (CHR 0x0C)
      else if e = CHR ''n'' then Some (CHR 0x0A)
      else if e = CHR ''r'' then Some (CHR 0x0D)
      else if e = CHR ''t'' then Some (CHR 0x09)
      else None)"

fun lexer :: "string option \<Rightarrow> string \<Rightarrow> token list option" where
  "lexer None [] = Some []"
| "lexer None (b # s) =
     (if b = CHR ''{'' then map_option (Cons LBrace) (lexer None s)
      else if b = CHR ''}'' then map_option (Cons RBrace) (lexer None s)
      else if b = CHR ''['' then map_option (Cons LBrack) (lexer None s)
      else if b = CHR '']'' then map_option (Cons RBrack) (lexer None s)
      else if b = CHR '':'' then map_option (Cons Colon) (lexer None s)
      else if b = CHR '','' then map_option (Cons Comma) (lexer None s)
      else if b = CHR '' '' \<or> b = CHR 0x09 \<or> b = CHR 0x0A \<or> b = CHR 0x0D then lexer None s
      else if b = CHR 0x22 then lexer (Some []) s
      else if b = CHR ''n'' then
        (case s of
           u # l # l' # s' \<Rightarrow>
             if u = CHR ''u'' \<and> l = CHR ''l'' \<and> l' = CHR ''l''
             then map_option (Cons Null) (lexer None s') else None
         | _ \<Rightarrow> None)
      else None)"
| "lexer (Some acc) [] = None"
| "lexer (Some acc) (b # s) =
     (if b = CHR 0x22 then map_option (Cons (Str acc)) (lexer None s)
      else if b = CHR 0x5C then
        (case s of
           [] \<Rightarrow> None
         | e # s' \<Rightarrow>
             if e = CHR ''u'' then
               (case s' of
                  h1 # h2 # h3 # h4 # s'' \<Rightarrow>
                    (case hex4 h1 h2 h3 h4 of
                       None \<Rightarrow> None
                     | Some n \<Rightarrow>
                         if 0xD800 \<le> n \<and> n < 0xE000 then
                           (case s'' of
                              b1 # b2 # k1 # k2 # k3 # k4 # s''' \<Rightarrow>
                                (case hex4 k1 k2 k3 k4 of
                                   Some m \<Rightarrow>
                                     if b1 = CHR 0x5C \<and> b2 = CHR ''u'' \<and> n < 0xDC00
                                        \<and> 0xDC00 \<le> m \<and> m < 0xE000
                                     then lexer (Some (acc @ utf8Encode
                                                  (0x10000 + (n - 0xD800) * 1024 + (m - 0xDC00)))) s'''
                                     else lexer (Some (acc @ replacementChar)) s''
                                 | None \<Rightarrow> lexer (Some (acc @ replacementChar)) s'')
                            | _ \<Rightarrow> lexer (Some (acc @ replacementChar)) s'')
                         else lexer (Some (acc @ utf8Encode n)) s'')
                | _ \<Rightarrow> None)
             else
               (case unescape e of
                  None \<Rightarrow> None
                | Some ch \<Rightarrow> lexer (Some (acc @ [ch])) s'))
      else if (of_char b :: nat) < 0x20 then None
      else if (of_char b :: nat) < 0x80 then lexer (Some (acc @ [b])) s
      else
        (case runeWidth (b # s) of
           0 \<Rightarrow> lexer (Some (acc @ replacementChar)) s
         | Suc w \<Rightarrow> lexer (Some (acc @ b # take w s)) (drop w s)))"

text \<open>
  Then the decoder reads the tokens into the store. It covers the documents that have
  the shape the encoder writes: an object with the five members in the order of the
  struct fields, each \<open>null\<close> or an object of arrays of four strings. A member that is
  \<open>null\<close> makes the mapping nil; a member that is an object adds its entries to the
  mapping of the target, a later entry replacing an earlier one with the same key.
  Every other sequence of tokens is reported as an error with the target left as it
  was. That is what the package does for a text that is not JSON; for JSON of another
  shape the package decodes the members that fit the store, as \<open>sampleUnmarshal\<close> does
  for \<open>mixedText\<close>, which this decoder does not model: the statements decode only
  texts that the encoder wrote.
\<close>

definition isStr :: "token \<Rightarrow> bool" where
  "isStr t = (case t of Str _ \<Rightarrow> True | _ \<Rightarrow> False)"

definition strOf :: "token \<Rightarrow> string" where
  "strOf t = (case t of Str s \<Rightarrow> s | _ \<Rightarrow> [])"

definition recordOf :: "token list \<Rightarrow> fields option" where
  "recordOf ts =
     (case ts of
        [l, a, c1, b, c2, c, c3, e, r] \<Rightarrow>
          if l = LBrack \<and> isStr a \<and> c1 = Comma \<and> isStr b \<and> c2 = Comma \<and> isStr c \<and> c3 = Comma
             \<and> isStr e \<and> r = RBrack
          then Some \<lparr>REGION = strOf a, ARCH = strOf b, OWNER = strOf c, TITLE = strOf e\<rparr>
          else None
      | _ \<Rightarrow> None)"

function (sequential) parseEntries ::
  "(string \<times> fields) list \<Rightarrow> token list \<Rightarrow> ((string \<times> fields) list \<times> token list) option" where
  "parseEntries acc (k # c # ts) =
     (if isStr k \<and> c = Colon then
        (case recordOf (take 9 ts) of
           None \<Rightarrow> None
         | Some f \<Rightarrow>
             (case drop 9 ts of
                [] \<Rightarrow> None
              | sep # ts' \<Rightarrow>
                  if sep = Comma then parseEntries (AList.update (strOf k) f acc) ts'
                  else if sep = RBrace then Some (AList.update (strOf k) f acc, ts')
                  else None))
      else None)"
| "parseEntries acc _ = None"
  by pat_completeness auto

termination
proof (relation "measure (\<lambda>p. length (snd p))")
  show "wf (measure (\<lambda>p. length (snd p)))"
    by simp
next
  fix acc :: "(string \<times> fields) list" and k c :: token and ts ts' :: "token list"
    and f :: fields and sep :: token
  assume "drop 9 ts = sep # ts'"
  then have "length (drop 9 ts) = Suc (length ts')"
    by simp
  then show "((AList.update (strOf k) f acc, ts'), (acc, k # c # ts)) \<in> measure (\<lambda>p. length (snd p))"
    by simp
qed

definition parseTable :: "gomap \<Rightarrow> token list \<Rightarrow> (gomap \<times> token list) option" where
  "parseTable m ts =
     (case ts of
        [] \<Rightarrow> None
      | t # ts1 \<Rightarrow>
          if t = Null then Some (None, ts1)
          else if t = LBrace then
            (case ts1 of
               [] \<Rightarrow> None
             | t1 # ts2 \<Rightarrow>
                 if t1 = RBrace then Some (Some (entries m), ts2)
                 else map_option (\<lambda>(xs, r). (Some xs, r)) (parseEntries (entries m) ts1))
          else None)"

definition parseMember :: "string \<Rightarrow> gomap \<Rightarrow> token list \<Rightarrow> (gomap \<times> token list) option" where
  "parseMember tag m ts =
     (case ts of
        k # c # ts1 \<Rightarrow> if k = Str tag \<and> c = Colon then parseTable m ts1 else None
      | _ \<Rightarrow> None)"

definition expect :: "token \<Rightarrow> token list \<Rightarrow> token list option" where
  "expect t ts = (case ts of [] \<Rightarrow> None | x # r \<Rightarrow> if x = t then Some r else None)"

definition parseDoc :: "json_doc \<Rightarrow> token list \<Rightarrow> json_doc option" where
  "parseDoc d ts =
     do {
       ts \<leftarrow> expect LBrace ts;
       (i, ts) \<leftarrow> parseMember ''images'' (images d) ts;
       ts \<leftarrow> expect Comma ts;
       (s, ts) \<leftarrow> parseMember ''snapshots'' (snapshots d) ts;
       ts \<leftarrow> expect Comma ts;
       (v, ts) \<leftarrow> parseMember ''volumes'' (volumes d) ts;
       ts \<leftarrow> expect Comma ts;
       (b, ts) \<leftarrow> parseMember ''bootscripts'' (bootscripts d) ts;
       ts \<leftarrow> expect Comma ts;
       (r, ts) \<leftarrow> parseMember ''servers'' (servers d) ts;
       ts \<leftarrow> expect RBrace ts;
       if ts = [] then Some \<lparr>images = i, snapshots = s, volumes = v, bootscripts = b, servers = r\<rparr>
       else None
     }"

text \<open>\<open>json.Unmarshal(bytes, &cache)\<close> on a store whose exported fields are \<open>d\<close>.\<close>

definition unmarshalJSON :: "string \<Rightarrow> json_doc \<Rightarrow> error option \<times> json_doc" where
  "unmarshalJSON bytes d =
     (case Option.bind (lexer None bytes) (parseDoc d) of
        None \<Rightarrow> (Some ErrJSON, d)
      | Some d' \<Rightarrow> (None, d'))"

text \<open>The external packages of the samples, with this encoder and this decoder.\<close>

definition jsonExt :: ext where
  "jsonExt = sampleExt\<lparr>json_Encode := encodeJSON, json_Unmarshal := unmarshalJSON\<rparr>"

text \<open>
  The exported fields with every mapping listed in the order of its keys: what the
  decoder reads from the text of the encoder.
\<close>

definition sortedDoc :: "json_doc \<Rightarrow> json_doc" where
  "sortedDoc d =
     \<lparr>images = map_option (sort_key fst) (images d),
      snapshots = map_option (sort_key fst) (snapshots d),
      volumes = map_option (sort_key fst) (volumes d),
      bootscripts = map_option (sort_key fst) (bootscripts d),
      servers = map_option (sort_key fst) (servers d)\<rparr>"

text \<open>The identifier and the four fields of a record are valid UTF-8.\<close>

definition validRecord :: "string \<times> fields \<Rightarrow> bool" where
  "validRecord p =
     (utf8_ValidString (fst p) \<and> utf8_ValidString (REGION (snd p)) \<and> utf8_ValidString (ARCH (snd p))
      \<and> utf8_ValidString (OWNER (snd p)) \<and> utf8_ValidString (TITLE (snd p)))"

text \<open>
  Two more stores for the examples: an image whose title holds a letter of two bytes,
  the characters \<open><\<close> and \<open>>\<close> and a quotation mark, and a server whose title is the single
  byte \<open>0xFF\<close>, a Go string that is not valid UTF-8.
\<close>

definition accentCache :: ScalewayCache where
  "accentCache =
     emptyCache\<lparr>Images :=
       Some [(''i1'', \<lparr>REGION = ''par1'', ARCH = ''arm'', OWNER = ''me'',
                      TITLE = [CHR ''c'', CHR ''a'', CHR ''f'', CHR 0xC3, CHR 0xA9, CHR '' '',
                               CHR ''<'', CHR ''1'', CHR ''>'', CHR 0x22]\<rparr>)]\<rparr>"

definition invalidTitleCache :: ScalewayCache where
  "invalidTitleCache =
     emptyCache\<lparr>Servers :=
       Some [(''s1'', \<lparr>REGION = ''par1'', ARCH = ''arm'', OWNER = ''me'', TITLE = [CHR 0xFF]\<rparr>)]\<rparr>"

section \<open>Properties\<close>

subsection \<open>Insert\<close>

lemma Insert_result:
  assumes "table k c = Some xs"
  shows "Insert k c i r a ow n =
           Inr (if absent_or_retitled (table k c) i n
                then with_table k (Some (AList.update i \<lparr>REGION = r, ARCH = a, OWNER = ow, TITLE = n\<rparr> xs))
                       (c\<lparr>Modified := True\<rparr>)
                else c)"
  using assms
  by (cases k)
     (auto simp: Insert_def table_def with_table_def absent_or_retitled_def InsertServer_def
        InsertImage_def InsertSnapshot_def InsertVolume_def InsertBootscript_def mapAssign_def
        split: option.splits)

lemma table_with_table [simp]: "table k (with_table k m c) = m"
  by (cases k) (simp_all add: table_def with_table_def)

lemma table_Modified [simp]: "table k (c\<lparr>Modified := b\<rparr>) = table k c"
  by (cases k) (simp_all add: table_def)

lemma not_absent_after_update:
  "\<not> absent_or_retitled (Some (AList.update i \<lparr>REGION = r, ARCH = a, OWNER = ow, TITLE = n\<rparr> xs)) i n"
  by (simp add: absent_or_retitled_def mapIndex_def entries_def update_conv')

text \<open>
  C9. For every store whose table of the kind is initialised, and every
  (identifier, region, arch, owner, name): the insert returns a store, a second insert
  with the same arguments returns that same store (mappings and dirty flag alike), and
  the first insert overwrites the record and sets the dirty flag exactly when no record
  exists for the identifier or the existing record's title differs from the name;
  otherwise it leaves the store as it is.
\<close>

theorem Insert_idempotent:
  assumes "table k c = Some xs"
  shows "\<exists>c1. Insert k c i r a ow n = Inr c1 \<and> Insert k c1 i r a ow n = Inr c1 \<and>
           c1 = (if absent_or_retitled (table k c) i n
                 then with_table k (Some (AList.update i \<lparr>REGION = r, ARCH = a, OWNER = ow, TITLE = n\<rparr> xs))
                        (c\<lparr>Modified := True\<rparr>)
                 else c)"
proof (cases "absent_or_retitled (table k c) i n")
  case True
  let ?m = "Some (AList.update i \<lparr>REGION = r, ARCH = a, OWNER = ow, TITLE = n\<rparr> xs)"
  let ?c1 = "with_table k ?m (c\<lparr>Modified := True\<rparr>)"
  have first: "Insert k c i r a ow n = Inr ?c1"
    using Insert_result [OF assms] True by simp
  have "table k ?c1 = ?m" by simp
  from Insert_result [OF this] not_absent_after_update
  have "Insert k ?c1 i r a ow n = Inr ?c1" by simp
  with first True show ?thesis by simp
next
  case False
  then show ?thesis using Insert_result [OF assms] by simp
qed

theorem Insert_idempotent_witness:
  "Insert Server exampleCache ''s3'' ''ams1'' ''x86'' ''me'' ''db'' =
     Inr (exampleCache\<lparr>Servers := Some (entries (Servers exampleCache) @
            [(''s3'', \<lparr>REGION = ''ams1'', ARCH = ''x86'', OWNER = ''me'', TITLE = ''db''\<rparr>)]),
          Modified := True\<rparr>)
   \<and> Insert Server exampleCache ''s1'' ''ams1'' ''x86'' ''you'' ''web'' = Inr exampleCache"
  using Insert_idempotent [of Server exampleCache "entries (Servers exampleCache)"
          "''s3''" "''ams1''" "''x86''" "''me''" "''db''"]
        Insert_idempotent [of Server exampleCache "entries (Servers exampleCache)"
          "''s1''" "''ams1''" "''x86''" "''you''" "''web''"]
  by (simp add: exampleCache_def table_def with_table_def entries_def absent_or_retitled_def
        mapIndex_def)

subsection \<open>Result selection\<close>



lemma lookUpLoop_eq:
  "lookUpLoop E ty rx needle xs res ex =
     (res @ map (entryOf E ty needle) (filter (\<lambda>p. prefix needle (fst p) \<or> rx (TITLE (snd p))) xs),
      ex @ map (entryOf E ty needle) (filter (\<lambda>p. TITLE (snd p) = needle) xs))"
  by (induction xs arbitrary: res ex) (auto simp: entryOf_def ComputeRankMatch_def Let_def)

lemma LookUp_eq:
  "LookUp E k c needle a =
     (case regexp_MustCompile E (''(?i)'' @ wildcard (normalized k needle)) of
        None \<Rightarrow> Inl PanicRegexp
      | Some rx \<Rightarrow>
          Inr (if length (exactRecords (normalized k needle) (table k c)) = 1
               then map (entryOf E (kindType k) (normalized k needle))
                      (exactRecords (normalized k needle) (table k c))
               else removeDuplicatesResults (generalMatches E k rx c needle a)))"
  by (cases k)
     (simp_all add: LookUp_def LookUpServers_def LookUpImages_def LookUpSnapshots_def
        LookUpVolumes_def LookUpBootscripts_def lookUpLoop_eq normalized_def kindType_def
        table_def exactRecords_def generalRecords_def generalMatches_def uuidCandidate_def
        ComputeRankMatch_def Let_def split: option.splits)

lemma encounter_keys:
  "fst ` set (fold (\<lambda>e m. AList.update (Identifier e) e m) xs m) = fst ` set m \<union> Identifier ` set xs"
  by (induction xs arbitrary: m) (auto simp: dom_update)

lemma encounter_distinct:
  "distinct (map fst m) \<Longrightarrow> distinct (map fst (fold (\<lambda>e m. AList.update (Identifier e) e m) xs m))"
  by (induction xs arbitrary: m) (auto simp: distinct_update)

lemma update_keyed:
  "\<forall>p \<in> set m. Identifier (snd p) = fst p \<Longrightarrow> \<forall>p \<in> set (AList.update (Identifier e) e m). Identifier (snd p) = fst p"
  by (induction m) (auto)

lemma update_values:
  "snd ` set (AList.update k v m) \<subseteq> insert v (snd ` set m)"
  by (induction m) (auto)

lemma encounter_keyed:
  "\<forall>p \<in> set m. Identifier (snd p) = fst p \<Longrightarrow>
   \<forall>p \<in> set (fold (\<lambda>e m. AList.update (Identifier e) e m) xs m). Identifier (snd p) = fst p"
proof (induction xs arbitrary: m)
  case Nil then show ?case by simp
next
  case (Cons x xs)
  show ?case using Cons.IH [OF update_keyed [OF Cons.prems]] by simp
qed

lemma encounter_values:
  "snd ` set (fold (\<lambda>e m. AList.update (Identifier e) e m) xs m) \<subseteq> snd ` set m \<union> set xs"
proof (induction xs arbitrary: m)
  case Nil then show ?case by simp
next
  case (Cons x xs)
  show ?case using Cons.IH [of "AList.update (Identifier x) x m"] update_values [of "Identifier x" x m]
    by auto
qed

lemma removeDuplicatesResults_distinct:
  "distinct (map Identifier (removeDuplicatesResults xs))"
proof -
  let ?m = "fold (\<lambda>e m. AList.update (Identifier e) e m) xs []"
  have "\<forall>p \<in> set ?m. Identifier (snd p) = fst p" by (rule encounter_keyed) simp
  then have "map Identifier (map snd ?m) = map fst ?m" by (simp add: map_eq_conv)
  moreover have "distinct (map fst ?m)" by (rule encounter_distinct) simp
  ultimately show ?thesis unfolding removeDuplicatesResults_def Let_def by metis
qed

lemma removeDuplicatesResults_identifiers:
  "Identifier ` set (removeDuplicatesResults xs) = Identifier ` set xs"
proof -
  let ?m = "fold (\<lambda>e m. AList.update (Identifier e) e m) xs []"
  have k: "\<forall>p \<in> set ?m. Identifier (snd p) = fst p" by (rule encounter_keyed) simp
  have "Identifier ` set (map snd ?m) = fst ` set ?m" using k by force
  then show ?thesis using encounter_keys [of xs "[]"] by (simp add: removeDuplicatesResults_def)
qed

lemma removeDuplicatesResults_subset:
  "set (removeDuplicatesResults xs) \<subseteq> set xs"
  using encounter_values [of xs "[]"] by (simp add: removeDuplicatesResults_def)


lemma sampleRegexp_web:
  "regexp_MustCompile sampleExt (''(?i)'' @ wildcard ''web'') =
     Some (matchAnywhere [Lit CHR ''w'', Lit CHR ''e'', Lit CHR ''b''])"
  by (simp add: sampleExt_def sampleRegexp_def wildcard_def)

lemma sampleRegexp_we:
  "regexp_MustCompile sampleExt (''(?i)'' @ wildcard ''we'') =
     Some (matchAnywhere [Lit CHR ''w'', Lit CHR ''e''])"
  by (simp add: sampleExt_def sampleRegexp_def wildcard_def)

lemma find_append_first:
  "List.find P (xs @ ys) = (case List.find P xs of None \<Rightarrow> List.find P ys | Some x \<Rightarrow> Some x)"
  by (induction xs) auto

lemma encounter_map_of:
  "map_of (fold (\<lambda>e m. AList.update (Identifier e) e m) xs m) k =
     (case List.find (\<lambda>e. Identifier e = k) (rev xs) of Some e \<Rightarrow> Some e | None \<Rightarrow> map_of m k)"
  by (induction xs arbitrary: m) (auto simp: find_append_first update_conv' split: option.splits)

lemma removeDuplicatesResults_last:
  assumes "r \<in> set (removeDuplicatesResults xs)"
  shows "List.find (\<lambda>e. Identifier e = Identifier r) (rev xs) = Some r"
proof -
  let ?m = "fold (\<lambda>e m. AList.update (Identifier e) e m) xs []"
  from assms obtain k where kr: "(k, r) \<in> set ?m"
    by (auto simp: removeDuplicatesResults_def)
  have keyed: "\<forall>p \<in> set ?m. Identifier (snd p) = fst p" by (rule encounter_keyed) simp
  with kr have k: "k = Identifier r" by force
  have "distinct (map fst ?m)" by (rule encounter_distinct) simp
  with kr have "map_of ?m k = Some r" by simp
  then show ?thesis unfolding k encounter_map_of by (simp split: option.splits)
qed

text \<open>
  C3 (as amended). A per-kind lookup panics when the pattern built from its needle does
  not compile. When the pattern compiles: if exactly one stored record of the kind has
  a title equal to the needle (stripped of \<open>user/\<close> by the lookups that strip it), the
  lookup returns precisely the entry of that record, whatever else matches and whether
  or not a synthetic identifier candidate was added; otherwise it returns the
  general matches with their duplicates removed: the identifiers of the result are
  distinct, they are the identifiers of the general matches, and every result is the
  last general match with its identifier.
\<close>

theorem LookUp_selection:
  "(regexp_MustCompile E (''(?i)'' @ wildcard (normalized k needle)) = None \<longrightarrow>
      LookUp E k c needle acceptUUID = Inl PanicRegexp)
   \<and> (regexp_MustCompile E (''(?i)'' @ wildcard (normalized k needle)) = Some nameRegex \<longrightarrow>
        (exactRecords (normalized k needle) (table k c) = [p] \<longrightarrow>
            LookUp E k c needle acceptUUID = Inr [entryOf E (kindType k) (normalized k needle) p])
      \<and> (length (exactRecords (normalized k needle) (table k c)) \<noteq> 1 \<longrightarrow>
            (\<exists>rs. LookUp E k c needle acceptUUID = Inr rs
               \<and> distinct (map Identifier rs)
               \<and> Identifier ` set rs = Identifier ` set (generalMatches E k nameRegex c needle acceptUUID)
               \<and> set rs \<subseteq> set (generalMatches E k nameRegex c needle acceptUUID)
               \<and> (\<forall>r \<in> set rs.
                     List.find (\<lambda>e. Identifier e = Identifier r)
                       (rev (generalMatches E k nameRegex c needle acceptUUID)) = Some r))))"
  by (simp add: LookUp_eq removeDuplicatesResults_distinct removeDuplicatesResults_identifiers
        removeDuplicatesResults_subset removeDuplicatesResults_last)

text \<open>
  C3 as stated fails: of a single server titled \<open>(\<close>, the lookup of \<open>(\<close> does not
  return the server: the pattern does not compile and the lookup panics.
\<close>

theorem LookUp_selection_counterexample:
  "exactRecords ''('' (Servers parenCache) =
     [(''s1'', \<lparr>REGION = ''par1'', ARCH = ''arm'', OWNER = ''me'', TITLE = ''(''\<rparr>)]
   \<and> LookUpServers sampleExt parenCache ''('' False = Inl PanicRegexp"
  by (simp add: exactRecords_def LookUpServers_def parenCache_def emptyCache_def entries_def
        sampleExt_def sampleRegexp_def wildcard_def)

theorem LookUp_selection_witness:
  "LookUp sampleExt Server parenCache ''('' False = Inl PanicRegexp
   \<and> LookUp sampleExt Server exampleCache ''web'' False =
     Inr [\<lparr>Identifier = ''s1'', Type = IdentifierServer, Name = ''web'', Needle = ''web'', RankMatch = 0\<rparr>]
   \<and> Identifier ` set (projr (LookUp sampleExt Server exampleCache ''we'' False)) = {''s1'', ''s2''}
   \<and> List.find (\<lambda>e. Identifier e = ''s2'')
        (rev (generalMatches sampleExt Server (matchAnywhere [Lit CHR ''w'', Lit CHR ''e''])
                exampleCache ''we'' False)) =
      Some \<lparr>Identifier = ''s2'', Type = IdentifierServer, Name = ''web2'', Needle = ''we'', RankMatch = 2\<rparr>"
proof -
  have paren: "regexp_MustCompile sampleExt (''(?i)'' @ wildcard (normalized Server ''('')) = None"
    by (simp add: normalized_def sampleExt_def sampleRegexp_def wildcard_def)
  have web: "regexp_MustCompile sampleExt (''(?i)'' @ wildcard (normalized Server ''web'')) =
               Some (matchAnywhere [Lit CHR ''w'', Lit CHR ''e'', Lit CHR ''b''])"
    using sampleRegexp_web by (simp add: normalized_def)
  have we: "regexp_MustCompile sampleExt (''(?i)'' @ wildcard (normalized Server ''we'')) =
               Some (matchAnywhere [Lit CHR ''w'', Lit CHR ''e''])"
    using sampleRegexp_we by (simp add: normalized_def)
  have one: "exactRecords (normalized Server ''web'') (table Server exampleCache) =
               [(''s1'', \<lparr>REGION = ''par1'', ARCH = ''arm'', OWNER = ''me'', TITLE = ''web''\<rparr>)]"
    by (simp add: exactRecords_def normalized_def table_def exampleCache_def entries_def)
  have none: "length (exactRecords (normalized Server ''we'') (table Server exampleCache)) \<noteq> 1"
    by (simp add: exactRecords_def normalized_def table_def exampleCache_def entries_def)
  have gen: "generalMatches sampleExt Server (matchAnywhere [Lit CHR ''w'', Lit CHR ''e''])
                  exampleCache ''we'' False =
             [\<lparr>Identifier = ''s1'', Type = IdentifierServer, Name = ''web'', Needle = ''we'', RankMatch = 1\<rparr>,
              \<lparr>Identifier = ''s2'', Type = IdentifierServer, Name = ''web2'', Needle = ''we'', RankMatch = 2\<rparr>]"
    by (simp add: generalMatches_def generalRecords_def
          normalized_def table_def exampleCache_def entries_def entryOf_def kindType_def
          sampleExt_def sampleRank_def lowerASCII_def)
  note t1 = LookUp_selection [where E = sampleExt and k = Server and needle = "''(''"
         and c = parenCache and acceptUUID = False]
  have a: "LookUp sampleExt Server parenCache ''('' False = Inl PanicRegexp"
    by (rule t1 [THEN conjunct1, THEN mp, OF paren])
  note t2 = LookUp_selection [where E = sampleExt and k = Server and needle = "''web''"
         and c = exampleCache and acceptUUID = False]
  have "LookUp sampleExt Server exampleCache ''web'' False =
          Inr [entryOf sampleExt (kindType Server) (normalized Server ''web'')
                 (''s1'', \<lparr>REGION = ''par1'', ARCH = ''arm'', OWNER = ''me'', TITLE = ''web''\<rparr>)]"
    by (rule t2 [THEN conjunct2, THEN mp, OF web, THEN conjunct1, THEN mp, OF one])
  then have b: "LookUp sampleExt Server exampleCache ''web'' False =
     Inr [\<lparr>Identifier = ''s1'', Type = IdentifierServer, Name = ''web'', Needle = ''web'', RankMatch = 0\<rparr>]"
    by (simp add: entryOf_def kindType_def normalized_def sampleExt_def sampleRank_def)
  note t3 = LookUp_selection [where E = sampleExt and k = Server and needle = "''we''"
         and c = exampleCache and acceptUUID = False]
  let ?gm = "generalMatches sampleExt Server (matchAnywhere [Lit CHR ''w'', Lit CHR ''e''])
               exampleCache ''we'' False"
  from t3 [THEN conjunct2, THEN mp, OF we, THEN conjunct2, THEN mp, OF none]
  obtain rs where rs1: "LookUp sampleExt Server exampleCache ''we'' False = Inr rs"
    and rs2: "Identifier ` set rs = Identifier ` set ?gm"
    and rs3: "\<forall>r \<in> set rs. List.find (\<lambda>e. Identifier e = Identifier r) (rev ?gm) = Some r"
    by (elim exE conjE)
  have ids: "Identifier ` set ?gm = {''s1'', ''s2''}" unfolding gen by simp
  from rs1 rs2 have c: "Identifier ` set (projr (LookUp sampleExt Server exampleCache ''we'' False)) = {''s1'', ''s2''}"
    by (simp add: ids)
  from rs2 ids have "''s2'' \<in> Identifier ` set rs" by simp
  then obtain r where r: "r \<in> set rs" "Identifier r = ''s2''" by (elim imageE) simp
  from rs3 r have "List.find (\<lambda>e. Identifier e = ''s2'') (rev ?gm) = Some r" by metis
  moreover have "List.find (\<lambda>e. Identifier e = ''s2'') (rev ?gm) =
      Some \<lparr>Identifier = ''s2'', Type = IdentifierServer, Name = ''web2'', Needle = ''we'', RankMatch = 2\<rparr>"
    unfolding gen by simp
  ultimately have d: "List.find (\<lambda>e. Identifier e = ''s2'') (rev ?gm) =
      Some \<lparr>Identifier = ''s2'', Type = IdentifierServer, Name = ''web2'', Needle = ''we'', RankMatch = 2\<rparr>"
    by simp
  from a b c d show ?thesis by (intro conjI)
qed

subsection \<open>The empty needle\<close>

lemma normalized_Nil [simp]: "normalized k [] = []"
  by (cases k) (simp_all add: normalized_def stripUser_def)

lemma generalRecords_Nil [simp]: "generalRecords rx [] m = entries m"
  by (simp add: generalRecords_def)

text \<open>
  C7 (as amended). A lookup of any kind with the empty needle and \<open>acceptUUID = false\<close>,
  the pattern \<open>(?i)\<close> compiling: if exactly one stored record of the kind has an empty
  title, the lookup returns the entry of that record alone; otherwise it returns a
  result for every stored record of the kind, each result being the entry of a stored
  record and no identifier occurring twice.
\<close>

theorem LookUp_empty_needle:
  assumes "regexp_MustCompile E ''(?i)'' = Some nameRegex"
  shows "(exactRecords [] (table k c) = [p] \<longrightarrow>
            LookUp E k c [] False = Inr [entryOf E (kindType k) [] p])
       \<and> (length (exactRecords [] (table k c)) \<noteq> 1 \<longrightarrow>
            (\<exists>rs. LookUp E k c [] False = Inr rs
               \<and> rs = removeDuplicatesResults (map (entryOf E (kindType k) []) (entries (table k c)))
               \<and> Identifier ` set rs = fst ` set (entries (table k c))
               \<and> set rs \<subseteq> entryOf E (kindType k) [] ` set (entries (table k c))
               \<and> distinct (map Identifier rs)))"
proof -
  have gm: "generalMatches E k nameRegex c [] False = map (entryOf E (kindType k) []) (entries (table k c))"
    by (simp add: generalMatches_def)
  have ids: "Identifier ` set (map (entryOf E (kindType k) []) (entries (table k c))) = fst ` set (entries (table k c))"
    by (force simp: entryOf_def)
  show ?thesis
    using assms removeDuplicatesResults_subset [of "generalMatches E k nameRegex c [] False"] ids
    by (simp add: LookUp_eq wildcard_def gm removeDuplicatesResults_distinct
          removeDuplicatesResults_identifiers)
qed

text \<open>
  C7 as stated fails: of two servers, one without a title, the lookup of the empty
  needle returns only the untitled one.
\<close>

theorem LookUp_empty_needle_counterexample:
  "entries (Servers blankTitleCache) \<noteq> [] \<and>
   (''s2'', \<lparr>REGION = ''par1'', ARCH = ''arm'', OWNER = ''me'', TITLE = ''web''\<rparr>)
      \<in> set (entries (Servers blankTitleCache)) \<and>
   LookUpServers sampleExt blankTitleCache [] False =
     Inr [\<lparr>Identifier = ''s1'', Type = IdentifierServer, Name = [], Needle = [], RankMatch = 0\<rparr>]"
  by (simp add: LookUpServers_def blankTitleCache_def emptyCache_def entries_def sampleExt_def
        sampleRegexp_def wildcard_def ComputeRankMatch_def sampleRank_def)

theorem LookUp_empty_needle_witness:
  "LookUp sampleExt Server blankTitleCache [] False =
     Inr [\<lparr>Identifier = ''s1'', Type = IdentifierServer, Name = [], Needle = [], RankMatch = 0\<rparr>]
   \<and> LookUp sampleExt Server exampleCache [] False =
     Inr [\<lparr>Identifier = ''s1'', Type = IdentifierServer, Name = ''web'', Needle = [], RankMatch = 3\<rparr>,
          \<lparr>Identifier = ''s2'', Type = IdentifierServer, Name = ''web2'', Needle = [], RankMatch = 4\<rparr>]"
proof -
  have rx: "regexp_MustCompile sampleExt ''(?i)'' = Some (matchAnywhere [])"
    by (simp add: sampleExt_def sampleRegexp_def)
  have one: "exactRecords [] (table Server blankTitleCache) =
               [(''s1'', \<lparr>REGION = ''par1'', ARCH = ''arm'', OWNER = ''me'', TITLE = []\<rparr>)]"
    by (simp add: exactRecords_def table_def blankTitleCache_def emptyCache_def entries_def)
  have none: "length (exactRecords [] (table Server exampleCache)) \<noteq> 1"
    by (simp add: exactRecords_def table_def exampleCache_def entries_def)
  from LookUp_empty_needle [OF rx, of Server blankTitleCache] one
  have a: "LookUp sampleExt Server blankTitleCache [] False =
          Inr [entryOf sampleExt (kindType Server) []
                 (''s1'', \<lparr>REGION = ''par1'', ARCH = ''arm'', OWNER = ''me'', TITLE = []\<rparr>)]"
    by blast
  have gen: "removeDuplicatesResults
               (map (entryOf sampleExt (kindType Server) []) (entries (table Server exampleCache))) =
     [\<lparr>Identifier = ''s1'', Type = IdentifierServer, Name = ''web'', Needle = [], RankMatch = 3\<rparr>,
      \<lparr>Identifier = ''s2'', Type = IdentifierServer, Name = ''web2'', Needle = [], RankMatch = 4\<rparr>]"
    by (simp add: removeDuplicatesResults_def table_def exampleCache_def entries_def entryOf_def
          kindType_def sampleExt_def sampleRank_def)
  from LookUp_empty_needle [OF rx, of Server exampleCache] none gen
  have b: "LookUp sampleExt Server exampleCache [] False =
     Inr [\<lparr>Identifier = ''s1'', Type = IdentifierServer, Name = ''web'', Needle = [], RankMatch = 3\<rparr>,
          \<lparr>Identifier = ''s2'', Type = IdentifierServer, Name = ''web2'', Needle = [], RankMatch = 4\<rparr>]"
    by simp
  from a b show ?thesis
    by (simp add: entryOf_def kindType_def sampleExt_def sampleRank_def)
qed


subsection \<open>Needles that are identifiers\<close>

lemma removeDuplicatesResults_single [simp]: "removeDuplicatesResults [x] = [x]"
  by (simp add: removeDuplicatesResults_def)

lemma uuidCandidate_survives:
  assumes "needle \<notin> fst ` set (entries (table k c))"
      and "anonuuid_IsUUID E needle"
  shows "uuidCandidate E (kindType k) needle
           \<in> set (removeDuplicatesResults (generalMatches E k rx c needle True))"
proof -
  let ?gm = "generalMatches E k rx c needle True"
  let ?u = "uuidCandidate E (kindType k) needle"
  have "?u \<in> set ?gm" using assms(2) by (simp add: generalMatches_def)
  then have "needle \<in> Identifier ` set ?gm" by (force simp: uuidCandidate_def)
  then have "needle \<in> Identifier ` set (removeDuplicatesResults ?gm)"
    by (simp add: removeDuplicatesResults_identifiers)
  then obtain r where r: "r \<in> set (removeDuplicatesResults ?gm)" "Identifier r = needle" by auto
  then have "r \<in> set ?gm" using removeDuplicatesResults_subset by blast
  then consider "r = ?u"
    | p where "p \<in> set (entries (table k c))" "r = entryOf E (kindType k) (normalized k needle) p"
    by (auto simp: generalMatches_def generalRecords_def split: if_splits)
  then have "r = ?u"
  proof cases
    case 1
    then show ?thesis .
  next
    case 2
    then have "Identifier r = fst p" by (simp add: entryOf_def)
    with 2(1) r(2) assms(1) show ?thesis by force
  qed
  with r(1) show ?thesis by simp
qed

text \<open>
  C8 (as amended). A lookup of any kind with \<open>acceptUUID = true\<close> and a needle that has
  the form of an identifier and is no key of the table, its pattern compiling: unless
  exactly one stored record has a title equal to the needle, the result contains the
  synthetic candidate whose identifier and name are the needle, and is that candidate
  alone when no stored record matches; when exactly one stored record has a title equal
  to the needle, the result is the entry of that record alone, which is not the
  synthetic candidate.
\<close>

theorem LookUp_accepts_identifier:
  assumes "regexp_MustCompile E (''(?i)'' @ wildcard (normalized k needle)) = Some nameRegex"
      and "anonuuid_IsUUID E needle"
      and "needle \<notin> fst ` set (entries (table k c))"
  shows "(length (exactRecords (normalized k needle) (table k c)) \<noteq> 1 \<longrightarrow>
            (\<exists>rs. LookUp E k c needle True = Inr rs
               \<and> uuidCandidate E (kindType k) needle \<in> set rs
               \<and> (generalRecords nameRegex (normalized k needle) (table k c) = [] \<longrightarrow>
                    rs = [uuidCandidate E (kindType k) needle])))
       \<and> (exactRecords (normalized k needle) (table k c) = [p] \<longrightarrow>
            LookUp E k c needle True = Inr [entryOf E (kindType k) (normalized k needle) p]
            \<and> Identifier (entryOf E (kindType k) (normalized k needle) p) \<noteq> needle)"
proof -
  have "fst p \<noteq> needle" if "exactRecords (normalized k needle) (table k c) = [p]"
  proof -
    from that have "p \<in> set (exactRecords (normalized k needle) (table k c))" by simp
    then have "p \<in> set (entries (table k c))" by (simp add: exactRecords_def)
    with assms(3) show ?thesis by force
  qed
  moreover have "generalMatches E k nameRegex c needle True = [uuidCandidate E (kindType k) needle]"
    if "generalRecords nameRegex (normalized k needle) (table k c) = []"
    using that assms(2) by (simp add: generalMatches_def)
  ultimately show ?thesis
    using assms(1) uuidCandidate_survives [OF assms(3) assms(2), of nameRegex]
    by (auto simp: LookUp_eq entryOf_def)
qed

text \<open>
  C8 as stated fails: for a server whose title is itself an identifier, the lookup of
  that identifier returns the server and not the synthetic candidate.
\<close>

theorem LookUp_accepts_identifier_counterexample:
  "sampleIsUUID ''11111111-1111-1111-1111-111111111111'' \<and>
   ''11111111-1111-1111-1111-111111111111'' \<notin> fst ` set (entries (Servers uuidTitleCache)) \<and>
   LookUpServers sampleExt uuidTitleCache ''11111111-1111-1111-1111-111111111111'' True =
     Inr [\<lparr>Identifier = ''s9'', Type = IdentifierServer,
           Name = ''11111111-1111-1111-1111-111111111111'',
           Needle = ''11111111-1111-1111-1111-111111111111'', RankMatch = 0\<rparr>]"
  by (simp add: LookUpServers_def uuidTitleCache_def emptyCache_def entries_def sampleExt_def
        sampleRegexp_def wildcard_def ComputeRankMatch_def sampleRank_def sampleIsUUID_def)


theorem LookUp_accepts_identifier_witness:
  "LookUp sampleExt Server exampleCache ''11111111-1111-1111-1111-111111111111'' True =
     Inr [\<lparr>Identifier = ''11111111-1111-1111-1111-111111111111'', Type = IdentifierServer,
           Name = ''11111111-1111-1111-1111-111111111111'',
           Needle = ''11111111-1111-1111-1111-111111111111'', RankMatch = 0\<rparr>]
   \<and> LookUp sampleExt Server uuidTitleCache ''11111111-1111-1111-1111-111111111111'' True =
     Inr [\<lparr>Identifier = ''s9'', Type = IdentifierServer,
           Name = ''11111111-1111-1111-1111-111111111111'',
           Needle = ''11111111-1111-1111-1111-111111111111'', RankMatch = 0\<rparr>]"
proof -
  let ?u = "''11111111-1111-1111-1111-111111111111''"
  let ?rx = "matchAnywhere (the (parsePattern (wildcard ?u)))"
  have rx: "regexp_MustCompile sampleExt (''(?i)'' @ wildcard (normalized Server ?u)) = Some ?rx"
    by (simp add: sampleExt_def sampleRegexp_def wildcard_def normalized_def)
  have uuid: "anonuuid_IsUUID sampleExt ?u"
    by (simp add: sampleExt_def sampleIsUUID_def)
  have fresh1: "?u \<notin> fst ` set (entries (table Server exampleCache))"
    by (simp add: table_def exampleCache_def entries_def)
  have fresh2: "?u \<notin> fst ` set (entries (table Server uuidTitleCache))"
    by (simp add: table_def uuidTitleCache_def emptyCache_def entries_def)
  have none: "length (exactRecords (normalized Server ?u) (table Server exampleCache)) \<noteq> 1"
    by (simp add: exactRecords_def normalized_def table_def exampleCache_def entries_def)
  have nogen: "generalRecords ?rx (normalized Server ?u) (table Server exampleCache) = []"
    by (simp add: generalRecords_def normalized_def table_def exampleCache_def entries_def
          wildcard_def lowerASCII_def)
  have one: "exactRecords (normalized Server ?u) (table Server uuidTitleCache) =
               [(''s9'', \<lparr>REGION = ''par1'', ARCH = ''arm'', OWNER = ''me'', TITLE = ?u\<rparr>)]"
    by (simp add: exactRecords_def normalized_def table_def uuidTitleCache_def emptyCache_def
          entries_def)
  from LookUp_accepts_identifier [OF rx uuid fresh1] none nogen
  have "LookUp sampleExt Server exampleCache ?u True = Inr [uuidCandidate sampleExt (kindType Server) ?u]"
    by blast
  moreover from LookUp_accepts_identifier [OF rx uuid fresh2] one
  have "LookUp sampleExt Server uuidTitleCache ?u True =
          Inr [entryOf sampleExt (kindType Server) (normalized Server ?u)
                 (''s9'', \<lparr>REGION = ''par1'', ARCH = ''arm'', OWNER = ''me'', TITLE = ?u\<rparr>)]"
    by blast
  ultimately show ?thesis
    by (simp add: uuidCandidate_def entryOf_def kindType_def normalized_def sampleExt_def
          sampleRank_def)
qed

subsection \<open>The prefix \<open>user/\<close>\<close>

lemma stripUser_user [simp]: "stripUser (''user/'' @ n) = n"
  by (simp add: stripUser_def)

lemma stripUser_id: "\<not> prefix ''user/'' n \<Longrightarrow> stripUser n = n"
  by (simp add: stripUser_def)

text \<open>
  C2 (as amended). Each of the five lookups is the per-kind lookup algorithm run on the
  table of its kind. \<open>LookUpImages\<close> and \<open>LookUpSnapshots\<close> run it with the needle
  stripped of one leading \<open>user/\<close>: titles are compared with the stripped needle,
  identifiers are tested for it as a prefix and the pattern is built from it.
  \<open>LookUpServers\<close>, \<open>LookUpVolumes\<close> and \<open>LookUpBootscripts\<close> run it with the needle as
  typed. Stripping removes exactly one leading \<open>user/\<close> and changes no other needle.
\<close>

theorem LookUp_user_prefix:
  "LookUp E k c needle acceptUUID =
     perKindLookup E (kindType k) (table k c) needle
       (if k = Image \<or> k = Snapshot then stripUser needle else needle) acceptUUID
   \<and> stripUser (''user/'' @ m) = m
   \<and> (\<not> prefix ''user/'' m \<longrightarrow> stripUser m = m)"
proof -
  have n: "normalized k needle = (if k = Image \<or> k = Snapshot then stripUser needle else needle)"
    by (cases k) (simp_all add: normalized_def)
  have "LookUp E k c needle acceptUUID =
          perKindLookup E (kindType k) (table k c) needle (normalized k needle) acceptUUID"
    unfolding LookUp_eq perKindLookup_def generalMatches_def by (rule refl)
  then show ?thesis
    unfolding n using stripUser_user [of m] stripUser_id [of m] by blast
qed

text \<open>
  C2 as stated fails for servers: \<open>user/web\<close> finds nothing where \<open>web\<close> finds the
  server of that title.
\<close>

theorem LookUp_user_prefix_counterexample:
  "LookUpServers sampleExt exampleCache ''user/web'' False = Inr [] \<and>
   LookUpServers sampleExt exampleCache ''web'' False =
     Inr [\<lparr>Identifier = ''s1'', Type = IdentifierServer, Name = ''web'', Needle = ''web'', RankMatch = 0\<rparr>]"
  by (simp add: LookUpServers_def exampleCache_def entries_def sampleExt_def sampleRegexp_def
        wildcard_def ComputeRankMatch_def sampleRank_def removeDuplicatesResults_def lowerASCII_def)

theorem LookUp_user_prefix_witness:
  "LookUp sampleExt Image exampleCache ''user/ubuntu'' False =
     Inr [\<lparr>Identifier = ''i1'', Type = IdentifierImage, Name = ''ubuntu'', Needle = ''ubuntu'', RankMatch = 0\<rparr>]
   \<and> LookUp sampleExt Server exampleCache ''user/web'' False = Inr []
   \<and> stripUser ''user/user/ubuntu'' = ''user/ubuntu''
   \<and> stripUser ''ubuntu'' = ''ubuntu''"
proof -
  note t1 = LookUp_user_prefix [where E = sampleExt and k = Image and c = exampleCache
      and needle = "''user/ubuntu''" and acceptUUID = False and m = "''user/ubuntu''"]
  note t2 = LookUp_user_prefix [where E = sampleExt and k = Server and c = exampleCache
      and needle = "''user/web''" and acceptUUID = False and m = "''ubuntu''"]
  have np: "\<not> prefix ''user/'' ''ubuntu''" by simp
  have a: "perKindLookup sampleExt (kindType Image) (table Image exampleCache) ''user/ubuntu''
             (if Image = Image \<or> Image = Snapshot then stripUser ''user/ubuntu'' else ''user/ubuntu'') False =
     Inr [\<lparr>Identifier = ''i1'', Type = IdentifierImage, Name = ''ubuntu'', Needle = ''ubuntu'', RankMatch = 0\<rparr>]"
    by (simp add: perKindLookup_def stripUser_def kindType_def table_def exampleCache_def
          entries_def exactRecords_def entryOf_def sampleExt_def sampleRegexp_def wildcard_def
          sampleRank_def)
  have b: "perKindLookup sampleExt (kindType Server) (table Server exampleCache) ''user/web''
             (if Server = Image \<or> Server = Snapshot then stripUser ''user/web'' else ''user/web'') False =
     Inr []"
    by (simp add: perKindLookup_def kindType_def table_def exampleCache_def
          entries_def exactRecords_def generalRecords_def entryOf_def sampleExt_def
          sampleRegexp_def wildcard_def sampleRank_def removeDuplicatesResults_def lowerASCII_def)
  from t1 [THEN conjunct1] a
  have 1: "LookUp sampleExt Image exampleCache ''user/ubuntu'' False =
     Inr [\<lparr>Identifier = ''i1'', Type = IdentifierImage, Name = ''ubuntu'', Needle = ''ubuntu'', RankMatch = 0\<rparr>]"
    by (rule trans)
  from t2 [THEN conjunct1] b
  have 2: "LookUp sampleExt Server exampleCache ''user/web'' False = Inr []" by (rule trans)
  from t1 [THEN conjunct2, THEN conjunct1]
  have 3: "stripUser ''user/user/ubuntu'' = ''user/ubuntu''" by simp
  have 4: "stripUser ''ubuntu'' = ''ubuntu''"
    by (rule t2 [THEN conjunct2, THEN conjunct2, THEN mp, OF np])
  from 1 2 3 4 show ?thesis by (intro conjI)
qed

subsection \<open>Parsing the needle of the unified lookup\<close>

lemma splitOn_nonempty [simp]: "splitOn ch s \<noteq> []"
  by (induction s) (auto split: list.splits)

lemma length_splitOn: "length (splitOn ch s) = Suc (count_list s ch)"
  by (induction s) (auto split: list.splits)

lemma hd_splitOn: "hd (splitOn ch s) = takeWhile (\<lambda>x. x \<noteq> ch) s"
  by (induction s) (auto split: list.splits)

lemma splitOn_no_sep: "ch \<notin> set s \<Longrightarrow> splitOn ch s = [s]"
  by (induction s) (auto split: list.splits)

lemma splitOn_one: "ch \<notin> set a \<Longrightarrow> ch \<notin> set b \<Longrightarrow> splitOn ch (a @ ch # b) = [a, b]"
  by (induction a) (auto simp: splitOn_no_sep split: list.splits)

lemma tagOf_no_colon: "CHR '':'' \<notin> set (tagOf k)"
  by (cases k) (simp_all add: tagOf_def)

lemma parseNeedle_tagged:
  assumes "CHR '':'' \<notin> set rest"
  shows "parseNeedle (tagOf k @ '':'' @ rest) = (kindType k, rest)"
proof -
  have "splitOn CHR '':'' (tagOf k @ CHR '':'' # rest) = [tagOf k, rest]"
    by (rule splitOn_one [OF tagOf_no_colon assms])
  then show ?thesis
    by (cases k) (simp_all add: parseNeedle_def tagOf_def kindType_def)
qed

lemma parseNeedle_untagged:
  assumes "count_list input CHR '':'' \<noteq> 1 \<or> takeWhile (\<lambda>ch. ch \<noteq> CHR '':'') input \<notin> range tagOf"
  shows "parseNeedle input = (IdentifierUnknown, input)"
proof (cases "count_list input CHR '':'' = 1")
  case False
  then show ?thesis by (simp add: parseNeedle_def length_splitOn)
next
  case True
  with assms have "hd (splitOn CHR '':'' input) \<notin> range tagOf" by (simp add: hd_splitOn)
  then have "\<forall>k. splitOn CHR '':'' input ! 0 \<noteq> tagOf k"
    by (auto simp: hd_conv_nth)
  from this [THEN spec, of Server] this [THEN spec, of Image] this [THEN spec, of Snapshot]
       this [THEN spec, of Bootscript] this [THEN spec, of Volume]
  show ?thesis
    by (simp add: parseNeedle_def tagOf_def Let_def)
qed

lemma bits_unknown: "and IdentifierUnknown (or IdentifierUnknown (kindType j)) > 0"
  by (cases j) (simp_all add: kindType_def IdentifierUnknown_def IdentifierServer_def
        IdentifierImage_def IdentifierSnapshot_def IdentifierVolume_def IdentifierBootscript_def)

lemma bits_kind: "and (kindType k) (or IdentifierUnknown (kindType j)) > 0 \<longleftrightarrow> j = k"
  by (cases k; cases j)
     (simp_all add: kindType_def IdentifierUnknown_def IdentifierServer_def
        IdentifierImage_def IdentifierSnapshot_def IdentifierVolume_def IdentifierBootscript_def)


lemma LookUpIdentifiers_eq:
  "LookUpIdentifiers E c input =
     (case parseNeedle input of (ty, needle) \<Rightarrow>
        (case block E c ty needle Server of Inl e \<Rightarrow> Inl e | Inr rs1 \<Rightarrow>
        (case block E c ty needle Image of Inl e \<Rightarrow> Inl e | Inr rs2 \<Rightarrow>
        (case block E c ty needle Snapshot of Inl e \<Rightarrow> Inl e | Inr rs3 \<Rightarrow>
        (case block E c ty needle Volume of Inl e \<Rightarrow> Inl e | Inr rs4 \<Rightarrow>
        (case block E c ty needle Bootscript of Inl e \<Rightarrow> Inl e | Inr rs5 \<Rightarrow>
           Inr (map (retag E (kindType Server) needle) rs1 @
                map (retag E (kindType Image) needle) rs2 @
                map (retag E (kindType Snapshot) needle) rs3 @
                map (retag E (kindType Volume) needle) rs4 @
                map (retag E (kindType Bootscript) needle) rs5)))))))"
  unfolding LookUpIdentifiers_def block_def kindType_def LookUp_def kind.case
  by (rule refl)

lemma block_kind: "block E c (kindType k) needle j = (if j = k then LookUp E k c needle False else Inr [])"
  by (simp add: block_def bits_kind)

lemma block_unknown: "block E c IdentifierUnknown needle j = LookUp E j c needle False"
  by (simp add: block_def bits_unknown)

text \<open>
  C5 (as amended). \<open>LookUpIdentifiers\<close> takes a needle of the form \<open>tag:rest\<close>, with one of
  the five tags and no further colon in \<open>rest\<close>, as a search of that kind alone for
  \<open>rest\<close>. Every other needle (no colon, more than one colon, another tag) is searched
  whole in all five kinds, and the result is the concatenation of the five result
  lists in the order server, image, snapshot, volume, bootscript. Every per-kind
  lookup is called with \<open>acceptUUID = false\<close>, each result is rebuilt with the type key
  of its kind and ranked against the parsed needle, and a lookup that panics makes the
  unified lookup panic.
\<close>

theorem LookUpIdentifiers_kinds:
  "(CHR '':'' \<notin> set rest \<longrightarrow>
      LookUpIdentifiers E c (tagOf k @ '':'' @ rest) =
        (case LookUp E k c rest False of
           Inl e \<Rightarrow> Inl e
         | Inr rs \<Rightarrow> Inr (map (retag E (kindType k) rest) rs)))
   \<and> (count_list input CHR '':'' \<noteq> 1 \<or>
        takeWhile (\<lambda>ch. ch \<noteq> CHR '':'') input \<notin> range tagOf \<longrightarrow>
        ((\<forall>j. LookUp E j c input False = Inr (rs j)) \<longrightarrow>
           LookUpIdentifiers E c input =
             Inr (concat (map (\<lambda>j. map (retag E (kindType j) input) (rs j))
                            [Server, Image, Snapshot, Volume, Bootscript])))
        \<and> ((\<exists>j e. LookUp E j c input False = Inl e) \<longrightarrow>
           (\<exists>e. LookUpIdentifiers E c input = Inl e)))"
proof (intro conjI impI)
  assume "CHR '':'' \<notin> set rest"
  then have p: "parseNeedle (tagOf k @ '':'' @ rest) = (kindType k, rest)"
    by (rule parseNeedle_tagged)
  show "LookUpIdentifiers E c (tagOf k @ '':'' @ rest) =
        (case LookUp E k c rest False of
           Inl e \<Rightarrow> Inl e
         | Inr rs \<Rightarrow> Inr (map (retag E (kindType k) rest) rs))"
    unfolding LookUpIdentifiers_eq p
    by (cases k) (simp_all add: block_kind split: sum.splits)
next
  assume u: "count_list input CHR '':'' \<noteq> 1 \<or>
        takeWhile (\<lambda>ch. ch \<noteq> CHR '':'') input \<notin> range tagOf"
    and all: "\<forall>j. LookUp E j c input False = Inr (rs j)"
  from u have p: "parseNeedle input = (IdentifierUnknown, input)"
    by (rule parseNeedle_untagged)
  show "LookUpIdentifiers E c input =
             Inr (concat (map (\<lambda>j. map (retag E (kindType j) input) (rs j))
                            [Server, Image, Snapshot, Volume, Bootscript]))"
    unfolding LookUpIdentifiers_eq p by (simp add: block_unknown all)
next
  assume u: "count_list input CHR '':'' \<noteq> 1 \<or>
        takeWhile (\<lambda>ch. ch \<noteq> CHR '':'') input \<notin> range tagOf"
    and some: "\<exists>j e. LookUp E j c input False = Inl e"
  from u have p: "parseNeedle input = (IdentifierUnknown, input)"
    by (rule parseNeedle_untagged)
  from some obtain j e where je: "LookUp E j c input False = Inl e" by blast
  show "\<exists>e. LookUpIdentifiers E c input = Inl e"
    unfolding LookUpIdentifiers_eq p using je
    by (cases j) (auto simp: block_unknown split: sum.splits)
qed

text \<open>
  C5 as stated fails for a needle with a second colon: \<open>server:a:b\<close> is not searched
  as \<open>a:b\<close> among the servers, where it would find \<open>s7\<close>, but whole in all kinds,
  where it finds an image.
\<close>

theorem LookUpIdentifiers_kinds_counterexample:
  "LookUpIdentifiers sampleExt colonCache ''server:a:b'' =
     Inr [\<lparr>Identifier = ''i7'', Type = IdentifierImage, Name = ''server:a:b'',
           Needle = ''server:a:b'', RankMatch = 0\<rparr>]
   \<and> LookUpServers sampleExt colonCache ''a:b'' False =
     Inr [\<lparr>Identifier = ''s7'', Type = IdentifierServer, Name = ''a:b'',
           Needle = ''a:b'', RankMatch = 0\<rparr>]"
  by (simp add: LookUpIdentifiers_def parseNeedle_def LookUpServers_def LookUpImages_def
        LookUpSnapshots_def LookUpVolumes_def LookUpBootscripts_def colonCache_def emptyCache_def
        entries_def sampleExt_def sampleRegexp_def wildcard_def stripUser_def
        ComputeRankMatch_def retag_def sampleRank_def removeDuplicatesResults_def lowerASCII_def
        IdentifierUnknown_def IdentifierServer_def IdentifierImage_def IdentifierSnapshot_def
        IdentifierVolume_def IdentifierBootscript_def Let_def)


theorem LookUpIdentifiers_kinds_witness:
  "LookUpIdentifiers sampleExt exampleCache ''server:web'' =
     Inr [\<lparr>Identifier = ''s1'', Type = IdentifierServer, Name = ''web'', Needle = ''web'', RankMatch = 0\<rparr>]
   \<and> LookUpIdentifiers sampleExt exampleCache ''u'' =
     Inr [\<lparr>Identifier = ''i1'', Type = IdentifierImage, Name = ''ubuntu'', Needle = ''u'', RankMatch = 5\<rparr>]
   \<and> isl (LookUpIdentifiers sampleExt exampleCache ''('')"
proof -
  let ?i1 = "\<lparr>Identifier = ''i1'', Type = IdentifierImage, Name = ''ubuntu'', Needle = ''u'', RankMatch = 5\<rparr>"
  let ?rs = "\<lambda>j. if j = Image then [?i1] else []"
  have web: "LookUp sampleExt Server exampleCache ''web'' False =
     Inr [\<lparr>Identifier = ''s1'', Type = IdentifierServer, Name = ''web'', Needle = ''web'', RankMatch = 0\<rparr>]"
    by (simp add: LookUp_def LookUpServers_def exampleCache_def entries_def sampleExt_def
        sampleRegexp_def wildcard_def ComputeRankMatch_def sampleRank_def)
  have u: "LookUp sampleExt j exampleCache ''u'' False = Inr (?rs j)" for j
    by (cases j)
       (simp_all add: LookUp_def LookUpServers_def LookUpImages_def LookUpSnapshots_def
          LookUpVolumes_def LookUpBootscripts_def exampleCache_def entries_def sampleExt_def
          sampleRegexp_def wildcard_def stripUser_def ComputeRankMatch_def sampleRank_def
          removeDuplicatesResults_def lowerASCII_def Let_def)
  have paren: "LookUp sampleExt Server exampleCache ''('' False = Inl PanicRegexp"
    by (simp add: LookUp_def LookUpServers_def sampleExt_def sampleRegexp_def wildcard_def)
  have nocolon: "CHR '':'' \<notin> set ''web''" by simp
  have untagged: "count_list ''u'' CHR '':'' \<noteq> 1 \<or>
        takeWhile (\<lambda>ch. ch \<noteq> CHR '':'') ''u'' \<notin> range tagOf" by simp
  have untagged': "count_list ''('' CHR '':'' \<noteq> 1 \<or>
        takeWhile (\<lambda>ch. ch \<noteq> CHR '':'') ''('' \<notin> range tagOf" by simp
  from LookUpIdentifiers_kinds [where rest = "''web''" and k = Server and E = sampleExt
         and c = exampleCache] nocolon web
  have a: "LookUpIdentifiers sampleExt exampleCache ''server:web'' =
     Inr [\<lparr>Identifier = ''s1'', Type = IdentifierServer, Name = ''web'', Needle = ''web'', RankMatch = 0\<rparr>]"
    by (simp add: tagOf_def retag_def ComputeRankMatch_def kindType_def sampleExt_def sampleRank_def)
  from LookUpIdentifiers_kinds [where input = "''u''" and E = sampleExt and c = exampleCache
         and rs = ?rs] untagged u
  have b: "LookUpIdentifiers sampleExt exampleCache ''u'' = Inr [?i1]"
    by (simp add: retag_def ComputeRankMatch_def kindType_def sampleExt_def sampleRank_def)
  from LookUpIdentifiers_kinds [where input = "''(''" and E = sampleExt and c = exampleCache]
       untagged' paren
  have "\<exists>e. LookUpIdentifiers sampleExt exampleCache ''('' = Inl e"
    by blast
  then have "isl (LookUpIdentifiers sampleExt exampleCache ''('')" by auto
  with a b show ?thesis by simp
qed

subsection \<open>Saving\<close>

lemma cleanStep_nonempty: "[] \<notin> set out \<Longrightarrow> [] \<notin> set (cleanStep rooted e out)"
  by (auto simp: cleanStep_def dest: in_set_butlastD)

lemma fold_cleanStep_nonempty: "[] \<notin> set out \<Longrightarrow> [] \<notin> set (fold (cleanStep rooted) es out)"
  by (induction es arbitrary: out) (simp_all add: cleanStep_nonempty)

lemma strings_Join_nonempty: "xs \<noteq> [] \<Longrightarrow> [] \<notin> set xs \<Longrightarrow> strings_Join xs sep \<noteq> []"
  by (induction xs sep rule: strings_Join.induct) auto

lemma filepath_Clean_nonempty: "filepath_Clean path \<noteq> []"
  using fold_cleanStep_nonempty [of "[]"]
  by (auto simp: filepath_Clean_def Let_def strings_Join_nonempty)

lemma homeDir_nonempty: "homeDir w \<noteq> []"
  by (simp add: homeDir_def Let_def)

lemma cachePath_nonempty: "cachePath w \<noteq> []"
  by (simp add: cachePath_def filepath_Join_def homeDir_nonempty filepath_Clean_nonempty)

lemma Save_store: "snd (snd (Save E w c)) = c"
  by (simp add: Save_def split: prod.splits sum.splits option.splits)

lemma Save_clean: "\<not> Modified c \<Longrightarrow> Save E w c = (None, w, c)"
  by (simp add: Save_def)

lemma Save_success:
  assumes "Modified c" and "fst (Save E w c) = None"
  shows "files (fst (snd (Save E w c))) (Path c) = Some (json_Encode E (exportedFields c))
       \<and> getenv (fst (snd (Save E w c))) = getenv w
       \<and> failing (fst (snd (Save E w c))) = failing w
       \<and> Path c \<noteq> []"
  using assms
  by (auto simp: Save_def ioutil_TempFile_def writeFile_def os_Rename_def Let_def
      split: if_splits option.splits prod.splits sum.splits)


lemma Save_example:
  "Save sampleExt exampleWorld (exampleCache\<lparr>Modified := True\<rparr>) =
     (None, cachedWorld (sampleEncode (exportedFields exampleCache)), exampleCache\<lparr>Modified := True\<rparr>)"
  by (simp add: Save_def exampleCache_def exampleWorld_def cachedWorld_def ioutil_TempFile_def
        writeFile_def os_Rename_def filepath_Dir_def filepath_Base_def filepath_Join_def
        filepath_Clean_def cleanStep_def sampleExt_def exportedFields_def Let_def fun_eq_iff)

text \<open>
  C1 (as amended). \<open>Save\<close> never changes the store, so it never changes the dirty flag:
  after a \<open>Save\<close> that returns success on a store whose dirty flag is true, the flag is
  still true, and the file at the path of the store holds the encoded store. A \<open>Save\<close>
  on a store whose dirty flag is false writes nothing and returns success.
\<close>

theorem Save_keeps_flag:
  "snd (snd (Save E w c)) = c
   \<and> (\<not> Modified c \<longrightarrow> Save E w c = (None, w, c))
   \<and> (Modified c \<longrightarrow> fst (Save E w c) = None \<longrightarrow>
        Modified (snd (snd (Save E w c)))
        \<and> files (fst (snd (Save E w c))) (Path c) = Some (json_Encode E (exportedFields c)))"
  using Save_success [of c E w] by (simp add: Save_store Save_clean)

text \<open>
  C1 as stated fails: a dirty store is saved with success and is dirty afterwards.
\<close>

theorem Save_keeps_flag_counterexample:
  "Modified (exampleCache\<lparr>Modified := True\<rparr>)
   \<and> fst (Save sampleExt exampleWorld (exampleCache\<lparr>Modified := True\<rparr>)) = None
   \<and> Modified (snd (snd (Save sampleExt exampleWorld (exampleCache\<lparr>Modified := True\<rparr>))))"
  by (simp add: Save_example)

theorem Save_keeps_flag_witness:
  "Save sampleExt exampleWorld exampleCache = (None, exampleWorld, exampleCache)
   \<and> Modified (snd (snd (Save sampleExt exampleWorld (exampleCache\<lparr>Modified := True\<rparr>))))
   \<and> files (fst (snd (Save sampleExt exampleWorld (exampleCache\<lparr>Modified := True\<rparr>))))
        ''/home/u/.scw-cache.db'' = Some (sampleEncode (exportedFields exampleCache))"
proof -
  have clean: "\<not> Modified exampleCache" by (simp add: exampleCache_def)
  have dirty: "Modified (exampleCache\<lparr>Modified := True\<rparr>)" by simp
  have ok: "fst (Save sampleExt exampleWorld (exampleCache\<lparr>Modified := True\<rparr>)) = None"
    by (simp add: Save_example)
  have p: "Path (exampleCache\<lparr>Modified := True\<rparr>) = ''/home/u/.scw-cache.db''"
    by (simp add: exampleCache_def)
  have e: "json_Encode sampleExt (exportedFields (exampleCache\<lparr>Modified := True\<rparr>)) =
             sampleEncode (exportedFields exampleCache)"
    by (simp add: sampleExt_def exportedFields_def)
  from Save_keeps_flag [of sampleExt exampleWorld exampleCache] clean
  have "Save sampleExt exampleWorld exampleCache = (None, exampleWorld, exampleCache)" by blast
  moreover from Save_keeps_flag [of sampleExt exampleWorld "exampleCache\<lparr>Modified := True\<rparr>"] dirty ok
  have "Modified (snd (snd (Save sampleExt exampleWorld (exampleCache\<lparr>Modified := True\<rparr>))))
        \<and> files (fst (snd (Save sampleExt exampleWorld (exampleCache\<lparr>Modified := True\<rparr>))))
            (Path (exampleCache\<lparr>Modified := True\<rparr>)) =
          Some (json_Encode sampleExt (exportedFields (exampleCache\<lparr>Modified := True\<rparr>)))"
    by blast
  ultimately show ?thesis unfolding p e by blast
qed


subsection \<open>Saving and loading\<close>

lemma table_initNilMaps:
  "entries (table k (initNilMaps c)) = entries (table k c)" "table k (initNilMaps c) \<noteq> None"
  by (cases k; simp add: initNilMaps_def table_def make_map_def entries_def Let_def)+

lemma initNilMaps_rest [simp]:
  "Path (initNilMaps c) = Path c" "Modified (initNilMaps c) = Modified c"
  by (simp_all add: initNilMaps_def Let_def)

lemma table_setExported [simp]: "table k (setExported d c) = docTable k d"
  by (cases k) (simp_all add: table_def setExported_def docTable_def)

lemma setExported_rest [simp]:
  "Path (setExported d c) = Path c" "Modified (setExported d c) = Modified c"
  by (simp_all add: setExported_def)

lemma exportedFields_zero_Path [simp]:
  "exportedFields (zeroCache\<lparr>Path := p\<rparr>) = exportedFields zeroCache"
  by (simp add: exportedFields_def zeroCache_def)

lemma zeroCache_rest [simp]: "Path zeroCache = []" "Modified zeroCache = False"
  by (simp_all add: zeroCache_def)

lemma cachePath_getenv: "getenv w' = getenv w \<Longrightarrow> cachePath w' = cachePath w"
  by (simp add: cachePath_def homeDir_def Let_def)

lemma NewScalewayCache_decoded:
  assumes "files w (cachePath w) = Some bytes" and "\<not> failing w OpStat" and "\<not> failing w OpReadFile"
      and "json_Unmarshal E bytes (exportedFields zeroCache) = (None, d)"
  shows "NewScalewayCache E w =
           (Inr (initNilMaps (setExported d (zeroCache\<lparr>Path := cachePath w\<rparr>))), w)"
  using assms cachePath_nonempty [of w]
  by (simp add: NewScalewayCache_def os_Stat_def ioutil_ReadFile_def Let_def)

lemma hexVal_hexDigit: "k < 16 \<Longrightarrow> hexVal (hexDigit k) = Some k"
  by (simp add: hexVal_def hexDigit_def Let_def)

lemma hex4_byte:
  "n < 256 \<Longrightarrow> hex4 CHR ''0'' CHR ''0'' (hexDigit (n div 16)) (hexDigit (n mod 16)) = Some n"
proof -
  assume n: "n < 256"
  then have "n div 16 < 16"
    by simp
  then have a: "hexVal (hexDigit (n div 16)) = Some (n div 16)"
    by (rule hexVal_hexDigit)
  have b: "hexVal (hexDigit (n mod 16)) = Some (n mod 16)"
    by (rule hexVal_hexDigit) simp
  have z: "hexVal CHR ''0'' = Some 0"
    by (simp add: hexVal_def)
  show ?thesis
    unfolding hex4_def a b z by simp
qed

lemma lexer_escASCII:
  assumes "(of_char b :: nat) < 0x80"
  shows "lexer (Some acc) (escASCII b @ rest) = lexer (Some (acc @ [b])) rest"
proof -
  have byte: "(of_char b :: nat) < 256"
    using assms by simp
  have u: "utf8Encode (of_char b) = [b]"
    using assms by (simp add: utf8Encode_def)
  show ?thesis
    using assms hex4_byte [OF byte] u
    by (simp add: escASCII_def unescape_def)
qed

lemma runeWidth_cases:
  assumes "runeWidth (b # s) = Suc w"
  obtains (two) b2 s' where "s = b2 # s'" "w = 1" "inRange 0xC2 0xDF b" "inRange 0x80 0xBF b2"
  | (three) b2 b3 s' where "s = b2 # b3 # s'" "w = 2" "\<not> inRange 0xC2 0xDF b" "inRange 0xE0 0xEF b"
      "inRange (if b = CHR 0xE0 then 0xA0 else 0x80) (if b = CHR 0xED then 0x9F else 0xBF) b2"
      "inRange 0x80 0xBF b3"
  | (four) b2 b3 b4 s' where "s = b2 # b3 # b4 # s'" "w = 3" "\<not> inRange 0xC2 0xDF b"
      "\<not> inRange 0xE0 0xEF b" "inRange 0xF0 0xF4 b"
      "inRange (if b = CHR 0xF0 then 0x90 else 0x80) (if b = CHR 0xF4 then 0x8F else 0xBF) b2"
      "inRange 0x80 0xBF b3" "inRange 0x80 0xBF b4"
proof (cases "inRange 0xC2 0xDF b")
  case True
  then have "runeWidth (b # s) = (case s of b2 # _ \<Rightarrow> if inRange 0x80 0xBF b2 then 2 else 0 | _ \<Rightarrow> 0)"
    by (simp add: runeWidth_def)
  with assms True show ?thesis
    by (cases s) (auto split: if_splits intro: two)
next
  case n2: False
  show ?thesis
  proof (cases "inRange 0xE0 0xEF b")
    case True
    with n2 have "runeWidth (b # s) =
        (case s of
               b2 # b3 # _ \<Rightarrow>
                 if inRange (if b = CHR 0xE0 then 0xA0 else 0x80)
                            (if b = CHR 0xED then 0x9F else 0xBF) b2
                    \<and> inRange 0x80 0xBF b3
                 then 3 else 0
             | _ \<Rightarrow> 0)"
      by (simp add: runeWidth_def)
    with assms obtain b2 b3 s' where "s = b2 # b3 # s'"
      "(if inRange (if b = CHR 0xE0 then 0xA0 else 0x80)
                            (if b = CHR 0xED then 0x9F else 0xBF) b2
                    \<and> inRange 0x80 0xBF b3
                 then 3 else 0) = Suc w"
      by (cases s; cases "tl s") auto
    with n2 True show ?thesis
      by (cases "inRange (if b = CHR 0xE0 then 0xA0 else 0x80)
                            (if b = CHR 0xED then 0x9F else 0xBF) b2
                    \<and> inRange 0x80 0xBF b3") (auto intro: three)
  next
    case n3: False
    show ?thesis
    proof (cases "inRange 0xF0 0xF4 b")
      case True
      with n2 n3 have "runeWidth (b # s) =
            (case s of
               b2 # b3 # b4 # _ \<Rightarrow>
                 if inRange (if b = CHR 0xF0 then 0x90 else 0x80)
                            (if b = CHR 0xF4 then 0x8F else 0xBF) b2
                    \<and> inRange 0x80 0xBF b3 \<and> inRange 0x80 0xBF b4
                 then 4 else 0
             | _ \<Rightarrow> 0)"
        by (simp add: runeWidth_def)
      with assms obtain b2 b3 b4 s' where "s = b2 # b3 # b4 # s'"
        "(if inRange (if b = CHR 0xF0 then 0x90 else 0x80)
                            (if b = CHR 0xF4 then 0x8F else 0xBF) b2
                    \<and> inRange 0x80 0xBF b3 \<and> inRange 0x80 0xBF b4
                 then 4 else 0) = Suc w"
        by (cases s; cases "tl s"; cases "tl (tl s)") auto
      with n2 n3 True show ?thesis
        by (cases "inRange (if b = CHR 0xF0 then 0x90 else 0x80)
                            (if b = CHR 0xF4 then 0x8F else 0xBF) b2
                    \<and> inRange 0x80 0xBF b3 \<and> inRange 0x80 0xBF b4") (auto intro: four)
    next
      case False
      with n2 n3 have "runeWidth (b # s) = 0"
        by (simp add: runeWidth_def)
      with assms show ?thesis
        by simp
    qed
  qed
qed

lemma runeWidth_length: "runeWidth (b # s) = Suc w \<Longrightarrow> w \<le> length s"
  by (erule runeWidth_cases) simp_all

lemma runeWidth_lead: "runeWidth (b # s) = Suc w \<Longrightarrow> 0xC2 \<le> (of_char b :: nat)"
  by (erule runeWidth_cases) (simp_all add: inRange_def)

lemma runeWidth_take:
  "runeWidth (b # s) = Suc w \<Longrightarrow> runeWidth (b # take w s @ y) = Suc w"
  by (erule runeWidth_cases) (simp_all add: runeWidth_def)

lemma lexer_rune:
  assumes "runeWidth (b # s) = Suc w"
  shows "lexer (Some acc) (b # take w s @ y) = lexer (Some (acc @ b # take w s)) y"
proof -
  have n: "0xC2 \<le> (of_char b :: nat)"
    using assms by (rule runeWidth_lead)
  have b: "b \<noteq> CHR 0x22" "b \<noteq> CHR 0x5C"
    using n by auto
  have l: "w \<le> length s"
    using assms by (rule runeWidth_length)
  have r: "runeWidth (b # take w s @ y) = Suc w"
    using assms by (rule runeWidth_take)
  show ?thesis
    using n b l r by simp
qed

lemma lexer_separators:
  "lexer (Some acc) (CHR 0x5C # CHR ''u'' # CHR ''2'' # CHR ''0'' # CHR ''2'' # CHR ''8'' # y) =
     lexer (Some (acc @ [CHR 0xE2, CHR 0x80, CHR 0xA8])) y"
  "lexer (Some acc) (CHR 0x5C # CHR ''u'' # CHR ''2'' # CHR ''0'' # CHR ''2'' # CHR ''9'' # y) =
     lexer (Some (acc @ [CHR 0xE2, CHR 0x80, CHR 0xA9])) y"
proof -
  have c: "char_of (226 :: nat) = CHR 0xE2" "char_of (128 :: nat) = CHR 0x80"
    "char_of (168 :: nat) = CHR 0xA8" "char_of (169 :: nat) = CHR 0xA9"
    by (simp_all add: char_of_eq_iff)
  show "lexer (Some acc) (CHR 0x5C # CHR ''u'' # CHR ''2'' # CHR ''0'' # CHR ''2'' # CHR ''8'' # y) =
     lexer (Some (acc @ [CHR 0xE2, CHR 0x80, CHR 0xA8])) y"
    by (simp add: hex4_def hexVal_def utf8Encode_def c)
  show "lexer (Some acc) (CHR 0x5C # CHR ''u'' # CHR ''2'' # CHR ''0'' # CHR ''2'' # CHR ''9'' # y) =
     lexer (Some (acc @ [CHR 0xE2, CHR 0x80, CHR 0xA9])) y"
    by (simp add: hex4_def hexVal_def utf8Encode_def c)
qed

lemma lexer_encodeChars:
  "utf8_ValidString s \<Longrightarrow>
     lexer (Some acc) (encodeChars s @ CHR 0x22 # rest) = map_option (Cons (Str (acc @ s))) (lexer None rest)"
proof (induction s arbitrary: acc rule: encodeChars.induct)
  case 1
  show ?case
    by simp
next
  case (2 b s)
  show ?case
  proof (cases "(of_char b :: nat) < 0x80")
    case True
    then have v: "utf8_ValidString s"
      using "2.prems" by simp
    show ?thesis
      using True lexer_escASCII [OF True] "2.IH"(1) [OF True v] by simp
  next
    case False
    then obtain w where w: "runeWidth (b # s) = Suc w" and v: "utf8_ValidString (drop w s)"
      using "2.prems" by (auto split: nat.splits)
    have l: "w \<le> length s"
      using w by (rule runeWidth_length)
    have ih: "lexer (Some acc') (encodeChars (drop w s) @ CHR 0x22 # rest) =
                map_option (Cons (Str (acc' @ drop w s))) (lexer None rest)" for acc'
      using "2.IH"(3) [OF False w v] .
    have e: "encodeChars (b # s) =
               (if b # take w s = [CHR 0xE2, CHR 0x80, CHR 0xA8]
                then [CHR 0x5C, CHR ''u'', CHR ''2'', CHR ''0'', CHR ''2'', CHR ''8'']
                else if b # take w s = [CHR 0xE2, CHR 0x80, CHR 0xA9]
                then [CHR 0x5C, CHR ''u'', CHR ''2'', CHR ''0'', CHR ''2'', CHR ''9'']
                else b # take w s) @ encodeChars (drop w s)"
      using False w by simp
    have t: "acc @ b # take w s @ drop w s = acc @ b # s"
      by simp
    consider (ls) "b # take w s = [CHR 0xE2, CHR 0x80, CHR 0xA8]"
      | (ps) "b # take w s = [CHR 0xE2, CHR 0x80, CHR 0xA9]"
      | (other) "b # take w s \<noteq> [CHR 0xE2, CHR 0x80, CHR 0xA8]" "b # take w s \<noteq> [CHR 0xE2, CHR 0x80, CHR 0xA9]"
      by blast
    then show ?thesis
    proof cases
      case ls
      have "lexer (Some acc) (encodeChars (b # s) @ CHR 0x22 # rest) =
              lexer (Some (acc @ [CHR 0xE2, CHR 0x80, CHR 0xA8])) (encodeChars (drop w s) @ CHR 0x22 # rest)"
        unfolding e using ls lexer_separators(1) by simp
      also have "\<dots> = map_option (Cons (Str ((acc @ [CHR 0xE2, CHR 0x80, CHR 0xA8]) @ drop w s))) (lexer None rest)"
        by (rule ih)
      also have "(acc @ [CHR 0xE2, CHR 0x80, CHR 0xA8]) @ drop w s = acc @ b # s"
        using ls [symmetric] by simp
      finally show ?thesis .
    next
      case ps
      have "lexer (Some acc) (encodeChars (b # s) @ CHR 0x22 # rest) =
              lexer (Some (acc @ [CHR 0xE2, CHR 0x80, CHR 0xA9])) (encodeChars (drop w s) @ CHR 0x22 # rest)"
        unfolding e using ps lexer_separators(2) by simp
      also have "\<dots> = map_option (Cons (Str ((acc @ [CHR 0xE2, CHR 0x80, CHR 0xA9]) @ drop w s))) (lexer None rest)"
        by (rule ih)
      also have "(acc @ [CHR 0xE2, CHR 0x80, CHR 0xA9]) @ drop w s = acc @ b # s"
        using ps [symmetric] by simp
      finally show ?thesis .
    next
      case other
      have o: "(b # take w s = [CHR 0xE2, CHR 0x80, CHR 0xA8]) = False"
        "(b # take w s = [CHR 0xE2, CHR 0x80, CHR 0xA9]) = False"
        using other by simp_all
      have "lexer (Some acc) (encodeChars (b # s) @ CHR 0x22 # rest) =
              lexer (Some acc) (b # take w s @ (encodeChars (drop w s) @ CHR 0x22 # rest))"
        unfolding e o if_False append_Cons append_assoc by (rule refl)
      also have "\<dots> = lexer (Some (acc @ b # take w s)) (encodeChars (drop w s) @ CHR 0x22 # rest)"
        using w by (rule lexer_rune)
      also have "\<dots> = map_option (Cons (Str ((acc @ b # take w s) @ drop w s))) (lexer None rest)"
        by (rule ih)
      also have "(acc @ b # take w s) @ drop w s = acc @ b # s"
        by simp
      finally show ?thesis .
    qed
  qed
qed

lemma lexer_render:
  "utf8_ValidString (strOf t) \<Longrightarrow> lexer None (render t @ rest) = map_option (Cons t) (lexer None rest)"
  by (cases t) (simp_all add: render_def strOf_def lexer_encodeChars)

lemma lexer_tokens:
  "list_all (\<lambda>t. utf8_ValidString (strOf t)) ts \<Longrightarrow>
     lexer None (concat (map render ts) @ rest) = map_option ((@) ts) (lexer None rest)"
proof (induction ts)
  case Nil
  show ?case
    by (simp add: option.map_ident)
next
  case (Cons t ts)
  then show ?case
    by (simp add: lexer_render option.map_comp o_def)
qed

lemma lexer_encodeJSON:
  assumes "list_all (\<lambda>t. utf8_ValidString (strOf t)) (tokDoc d)"
  shows "lexer None (encodeJSON d) = Some (tokDoc d)"
  unfolding encodeJSON_def lexer_tokens [OF assms] by simp

lemma recordOf_tokRecord: "recordOf (tokRecord f) = Some f"
  by (simp add: tokRecord_def recordOf_def isStr_def strOf_def)

lemma length_tokRecord: "length (tokRecord f) = 9"
  by (simp add: tokRecord_def)

lemma parseEntries_tokEntry:
  "parseEntries acc (tokEntry p @ Comma # ts) = parseEntries (AList.update (fst p) (snd p) acc) ts"
  "parseEntries acc (tokEntry p @ RBrace # ts) = Some (AList.update (fst p) (snd p) acc, ts)"
  by (simp_all add: tokEntry_def recordOf_tokRecord length_tokRecord isStr_def strOf_def)

lemma parseEntries_tokEntries:
  "xs \<noteq> [] \<Longrightarrow>
     parseEntries acc (tokEntries xs @ RBrace # rest) =
       Some (fold (\<lambda>p. AList.update (fst p) (snd p)) xs acc, rest)"
proof (induction xs arbitrary: acc rule: tokEntries.induct)
  case 1
  then show ?case
    by simp
next
  case (2 p)
  show ?case
    by (simp add: parseEntries_tokEntry)
next
  case (3 p q ps)
  have "parseEntries acc (tokEntries (p # q # ps) @ RBrace # rest) =
          parseEntries acc (tokEntry p @ Comma # (tokEntries (q # ps) @ RBrace # rest))"
    by simp
  also have "\<dots> = parseEntries (AList.update (fst p) (snd p) acc) (tokEntries (q # ps) @ RBrace # rest)"
    by (rule parseEntries_tokEntry)
  also have "\<dots> = Some (fold (\<lambda>p. AList.update (fst p) (snd p)) (q # ps) (AList.update (fst p) (snd p) acc), rest)"
    by (rule "3.IH") simp
  finally show ?case
    by simp
qed

lemma update_fresh: "k \<notin> fst ` set acc \<Longrightarrow> AList.update k v acc = acc @ [(k, v)]"
  by (induction acc) auto

lemma fold_update_fresh:
  "distinct (map fst (acc @ xs)) \<Longrightarrow> fold (\<lambda>p. AList.update (fst p) (snd p)) xs acc = acc @ xs"
proof (induction xs arbitrary: acc)
  case Nil
  show ?case
    by simp
next
  case (Cons p xs)
  have f: "fst p \<notin> fst ` set acc"
    using Cons.prems by auto
  have "distinct (map fst ((acc @ [p]) @ xs))"
    using Cons.prems by simp
  then have "fold (\<lambda>p. AList.update (fst p) (snd p)) xs (acc @ [p]) = (acc @ [p]) @ xs"
    by (rule Cons.IH)
  then show ?case
    using update_fresh [OF f, of "snd p"] by simp
qed

lemma tokEntries_head: "\<exists>r. tokEntries (p # ps) = Str (fst p) # r"
  by (cases ps) (simp_all add: tokEntry_def)

lemma parseTable_tokTable:
  assumes "distinct (map fst (entries m))"
  shows "parseTable None (tokTable m @ rest) = Some (map_option (sort_key fst) m, rest)"
proof (cases m)
  case None
  then show ?thesis
    by (simp add: parseTable_def tokTable_def)
next
  case (Some xs)
  show ?thesis
  proof (cases "sort_key fst xs")
    case Nil
    then have "xs = []"
      by (metis length_sort length_0_conv)
    then show ?thesis
      using Some by (simp add: parseTable_def tokTable_def entries_def)
  next
    case (Cons p ps)
    have d: "distinct (map fst ([] @ sort_key fst xs))"
      using assms Some by (simp add: entries_def distinct_map)
    have e: "parseEntries [] (tokEntries (p # ps) @ RBrace # rest) = Some (p # ps, rest)"
      using parseEntries_tokEntries [of "p # ps" "[]" rest] fold_update_fresh [OF d] Cons by simp
    have "parseTable None (tokTable m @ rest) = parseTable None (LBrace # tokEntries (p # ps) @ RBrace # rest)"
      using Some Cons by (simp add: tokTable_def)
    also have "\<dots> = map_option (\<lambda>(xs, r). (Some xs, r)) (parseEntries [] (tokEntries (p # ps) @ RBrace # rest))"
    proof -
      obtain r where r: "tokEntries (p # ps) = Str (fst p) # r"
        using tokEntries_head by blast
      show ?thesis
        unfolding r by (simp add: parseTable_def entries_def)
    qed
    finally show ?thesis
      using e Some Cons by simp
  qed
qed

lemma parseMember_tokMember:
  assumes "distinct (map fst (entries m))"
  shows "parseMember tag None (tokMember tag m @ rest) = Some (map_option (sort_key fst) m, rest)"
  using parseTable_tokTable [OF assms] by (simp add: parseMember_def tokMember_def)

lemma parseDoc_tokDoc:
  assumes "distinct (map fst (entries (images d)))" "distinct (map fst (entries (snapshots d)))"
    "distinct (map fst (entries (volumes d)))" "distinct (map fst (entries (bootscripts d)))"
    "distinct (map fst (entries (servers d)))"
  shows "parseDoc \<lparr>images = None, snapshots = None, volumes = None, bootscripts = None, servers = None\<rparr>
           (tokDoc d) = Some (sortedDoc d)"
  unfolding parseDoc_def tokDoc_def
  by (simp add: expect_def parseMember_tokMember assms sortedDoc_def)

lemma strOf_simps:
  "strOf (Str s) = s" "strOf LBrace = []" "strOf RBrace = []" "strOf LBrack = []" "strOf RBrack = []"
  "strOf Colon = []" "strOf Comma = []" "strOf Null = []"
  by (simp_all add: strOf_def)

lemma valid_tokEntries:
  "list_all validRecord xs \<Longrightarrow> list_all (\<lambda>t. utf8_ValidString (strOf t)) (tokEntries xs)"
  by (induction xs rule: tokEntries.induct)
     (simp_all add: tokEntry_def tokRecord_def strOf_simps validRecord_def)

lemma valid_tokMember:
  assumes "utf8_ValidString tag" and "list_all validRecord (entries m)"
  shows "list_all (\<lambda>t. utf8_ValidString (strOf t)) (tokMember tag m)"
proof (cases m)
  case None
  then show ?thesis
    using assms(1) by (simp add: tokMember_def tokTable_def strOf_simps)
next
  case (Some xs)
  then have "list_all validRecord (sort_key fst xs)"
    using assms(2) by (simp add: entries_def list_all_iff)
  then show ?thesis
    using assms(1) Some by (simp add: tokMember_def tokTable_def strOf_simps valid_tokEntries)
qed

lemma valid_tokDoc:
  assumes "list_all validRecord (entries (images d))" "list_all validRecord (entries (snapshots d))"
    "list_all validRecord (entries (volumes d))" "list_all validRecord (entries (bootscripts d))"
    "list_all validRecord (entries (servers d))"
  shows "list_all (\<lambda>t. utf8_ValidString (strOf t)) (tokDoc d)"
  by (simp add: tokDoc_def valid_tokMember assms strOf_simps)

lemma unmarshalJSON_encodeJSON:
  assumes "\<forall>k. distinct (map fst (entries (docTable k d)))"
      and "\<forall>k. list_all validRecord (entries (docTable k d))"
  shows "unmarshalJSON (encodeJSON d) (exportedFields zeroCache) = (None, sortedDoc d)"
proof -
  have dist: "distinct (map fst (entries (images d)))" "distinct (map fst (entries (snapshots d)))"
    "distinct (map fst (entries (volumes d)))" "distinct (map fst (entries (bootscripts d)))"
    "distinct (map fst (entries (servers d)))"
    using assms(1) [rule_format, of Image] assms(1) [rule_format, of Snapshot]
      assms(1) [rule_format, of Volume] assms(1) [rule_format, of Bootscript]
      assms(1) [rule_format, of Server]
    by (simp_all add: docTable_def)
  have valid: "list_all validRecord (entries (images d))" "list_all validRecord (entries (snapshots d))"
    "list_all validRecord (entries (volumes d))" "list_all validRecord (entries (bootscripts d))"
    "list_all validRecord (entries (servers d))"
    using assms(2) [rule_format, of Image] assms(2) [rule_format, of Snapshot]
      assms(2) [rule_format, of Volume] assms(2) [rule_format, of Bootscript]
      assms(2) [rule_format, of Server]
    by (simp_all add: docTable_def)
  have z: "exportedFields zeroCache =
             \<lparr>images = None, snapshots = None, volumes = None, bootscripts = None, servers = None\<rparr>"
    by (simp add: exportedFields_def zeroCache_def)
  show ?thesis
    unfolding unmarshalJSON_def lexer_encodeJSON [OF valid_tokDoc [OF valid]] z
    by (simp add: parseDoc_tokDoc [OF dist])
qed

lemma docTable_exportedFields: "docTable k (exportedFields c) = table k c"
  by (cases k) (simp_all add: docTable_def table_def exportedFields_def)

lemma docTable_sortedDoc: "set (entries (docTable k (sortedDoc d))) = set (entries (docTable k d))"
  by (cases k; cases "docTable k d") (simp_all add: docTable_def sortedDoc_def entries_def)

lemma Save_succeeds:
  assumes "Modified c" and "Path c \<noteq> []" and "\<forall>call. \<not> failing w call"
      and "files w (filepath_Join (filepath_Dir (Path c)) (filepath_Base (Path c) @ suffix w)) = None"
  shows "fst (Save E w c) = None"
  using assms by (simp add: Save_def ioutil_TempFile_def writeFile_def os_Rename_def Let_def)

text \<open>On the example store the encoder writes the text of the sample.\<close>

lemma encodeJSON_example:
  "encodeJSON (exportedFields exampleCache) = sampleEncode (exportedFields exampleCache)"
  by (simp add: encodeJSON_def tokDoc_def tokMember_def tokTable_def tokEntry_def tokRecord_def
        render_def escASCII_def sampleEncode_def encodeMap_def encodeFields_def quoteJSON_def
        exampleCache_def exportedFields_def)

text \<open>
  C4 (as amended). With the encoder and the decoder of \<open>encoding/json\<close>, on a machine
  where no system call fails and the name of the temporary file is free: a store whose
  dirty flag is true, whose path is the per-user cache path, and whose identifiers and
  fields are valid UTF-8, is saved with success, and loading the file returns a store
  that holds for each of the five kinds exactly the records of the saved store, with
  every mapping initialised, the same path and the dirty flag false. (The keys of a
  mapping are distinct, as in every Go map.)
\<close>

theorem Save_Load_roundtrip:
  assumes "json_Encode E = encodeJSON" and "json_Unmarshal E = unmarshalJSON"
      and "Modified c" and "Path c = cachePath w"
      and "\<forall>call. \<not> failing w call"
      and "files w (filepath_Join (filepath_Dir (Path c)) (filepath_Base (Path c) @ suffix w)) = None"
      and "\<forall>k. distinct (map fst (entries (table k c)))"
      and "\<forall>k. list_all validRecord (entries (table k c))"
  shows "fst (Save E w c) = None
       \<and> (let w' = fst (snd (Save E w c));
              c' = initNilMaps (setExported (sortedDoc (exportedFields c)) (zeroCache\<lparr>Path := Path c\<rparr>))
          in NewScalewayCache E w' = (Inr c', w')
             \<and> (\<forall>k. set (entries (table k c')) = set (entries (table k c)) \<and> table k c' \<noteq> None)
             \<and> Path c' = Path c \<and> \<not> Modified c')"
proof -
  let ?w = "fst (snd (Save E w c))"
  have p: "Path c \<noteq> []"
    using assms(4) cachePath_nonempty by simp
  have ok: "fst (Save E w c) = None"
    using assms(3) p assms(5,6) by (rule Save_succeeds)
  from Save_success [OF assms(3) ok]
  have f: "files ?w (Path c) = Some (encodeJSON (exportedFields c))"
    and g: "getenv ?w = getenv w" and h: "failing ?w = failing w"
    by (simp_all add: assms(1))
  have cp: "cachePath ?w = Path c"
    using cachePath_getenv [OF g] assms(4) by simp
  have u: "json_Unmarshal E (encodeJSON (exportedFields c)) (exportedFields zeroCache) =
             (None, sortedDoc (exportedFields c))"
    unfolding assms(2)
    by (rule unmarshalJSON_encodeJSON) (simp_all add: docTable_exportedFields assms(7,8))
  have "NewScalewayCache E ?w =
          (Inr (initNilMaps (setExported (sortedDoc (exportedFields c)) (zeroCache\<lparr>Path := cachePath ?w\<rparr>))), ?w)"
    by (rule NewScalewayCache_decoded [where bytes = "encodeJSON (exportedFields c)"])
       (simp_all add: cp f h assms(5) u)
  then show ?thesis
    using ok
    by (simp add: cp Let_def table_initNilMaps docTable_sortedDoc docTable_exportedFields
          del: not_None_eq)
qed

text \<open>
  C4 as stated fails for a string that is not valid UTF-8: the store with a server
  titled by the byte \<open>0xFF\<close> is saved with success, and the store loaded from the file
  has a server titled by the replacement character.
\<close>

theorem Save_Load_roundtrip_counterexample:
  "fst (Save jsonExt exampleWorld (invalidTitleCache\<lparr>Modified := True\<rparr>)) = None
   \<and> fst (NewScalewayCache jsonExt (fst (snd (Save jsonExt exampleWorld (invalidTitleCache\<lparr>Modified := True\<rparr>))))) =
       Inr (emptyCache\<lparr>Servers :=
              Some [(''s1'', \<lparr>REGION = ''par1'', ARCH = ''arm'', OWNER = ''me'',
                             TITLE = [CHR 0xEF, CHR 0xBF, CHR 0xBD]\<rparr>)]\<rparr>)
   \<and> set (entries (table Server (emptyCache\<lparr>Servers :=
              Some [(''s1'', \<lparr>REGION = ''par1'', ARCH = ''arm'', OWNER = ''me'',
                             TITLE = [CHR 0xEF, CHR 0xBF, CHR 0xBD]\<rparr>)]\<rparr>)))
       \<noteq> set (entries (table Server (invalidTitleCache\<lparr>Modified := True\<rparr>)))"
proof -
  let ?c = "invalidTitleCache\<lparr>Modified := True\<rparr>"
  let ?text = "encodeJSON (exportedFields invalidTitleCache)"
  have cp: "cachePath (cachedWorld bytes) = ''/home/u/.scw-cache.db''" for bytes
    by (simp add: cachedWorld_def cachePath_def homeDir_def exampleWorld_def filepath_Join_def
          filepath_Clean_def cleanStep_def)
  have sv: "Save jsonExt exampleWorld ?c = (None, cachedWorld ?text, ?c)"
    by (simp add: Save_def invalidTitleCache_def emptyCache_def exampleWorld_def cachedWorld_def
          ioutil_TempFile_def writeFile_def os_Rename_def filepath_Dir_def filepath_Base_def
          filepath_Join_def filepath_Clean_def cleanStep_def jsonExt_def exportedFields_def Let_def
          fun_eq_iff)
  have enc: "?text =
    ''{'' @ [CHR 0x22] @ ''images'' @ [CHR 0x22] @ '':{},'' @ [CHR 0x22] @ ''snapshots'' @ [CHR 0x22] @ '':{},'' @
    [CHR 0x22] @ ''volumes'' @ [CHR 0x22] @ '':{},'' @ [CHR 0x22] @ ''bootscripts'' @ [CHR 0x22] @ '':{},'' @
    [CHR 0x22] @ ''servers'' @ [CHR 0x22] @ '':{'' @ [CHR 0x22] @ ''s1'' @ [CHR 0x22] @ '':['' @
    [CHR 0x22] @ ''par1'' @ [CHR 0x22] @ '','' @ [CHR 0x22] @ ''arm'' @ [CHR 0x22] @ '','' @
    [CHR 0x22] @ ''me'' @ [CHR 0x22] @ '','' @ [CHR 0x22, CHR 0x5C] @ ''ufffd'' @ [CHR 0x22] @ '']}}'' @ [CHR 0x0A]"
    by (simp add: encodeJSON_def tokDoc_def tokMember_def tokTable_def tokEntry_def tokRecord_def
          render_def escASCII_def runeWidth_def inRange_def invalidTitleCache_def emptyCache_def
          exportedFields_def)
  have um: "unmarshalJSON ?text (exportedFields zeroCache) =
              (None, exportedFields (emptyCache\<lparr>Servers :=
                 Some [(''s1'', \<lparr>REGION = ''par1'', ARCH = ''arm'', OWNER = ''me'',
                                TITLE = [CHR 0xEF, CHR 0xBF, CHR 0xBD]\<rparr>)]\<rparr>))"
    unfolding enc
    by (simp add: unmarshalJSON_def parseDoc_def parseMember_def parseTable_def expect_def
          recordOf_def isStr_def strOf_def unescape_def hex4_def hexVal_def utf8Encode_def
          replacementChar_def exportedFields_def zeroCache_def emptyCache_def entries_def
          char_of_eq_iff)
  have ld: "NewScalewayCache jsonExt (cachedWorld ?text) =
          (Inr (initNilMaps (setExported (exportedFields (emptyCache\<lparr>Servers :=
                 Some [(''s1'', \<lparr>REGION = ''par1'', ARCH = ''arm'', OWNER = ''me'',
                                TITLE = [CHR 0xEF, CHR 0xBF, CHR 0xBD]\<rparr>)]\<rparr>))
                 (zeroCache\<lparr>Path := cachePath (cachedWorld ?text)\<rparr>))), cachedWorld ?text)"
  proof (rule NewScalewayCache_decoded [where bytes = ?text])
    show "files (cachedWorld ?text) (cachePath (cachedWorld ?text)) = Some ?text"
      unfolding cp by (simp add: cachedWorld_def)
    show "\<not> failing (cachedWorld ?text) OpStat" "\<not> failing (cachedWorld ?text) OpReadFile"
      by (simp_all add: cachedWorld_def exampleWorld_def)
    show "json_Unmarshal jsonExt ?text (exportedFields zeroCache) =
            (None, exportedFields (emptyCache\<lparr>Servers :=
                 Some [(''s1'', \<lparr>REGION = ''par1'', ARCH = ''arm'', OWNER = ''me'',
                                TITLE = [CHR 0xEF, CHR 0xBF, CHR 0xBD]\<rparr>)]\<rparr>))"
      using um by (simp add: jsonExt_def)
  qed
  show ?thesis
    unfolding sv fst_conv snd_conv ld
    by (simp add: cp initNilMaps_def setExported_def exportedFields_def
          zeroCache_def emptyCache_def invalidTitleCache_def table_def entries_def Let_def)
qed

theorem Save_Load_roundtrip_witness:
  "fst (Save jsonExt exampleWorld (exampleCache\<lparr>Modified := True\<rparr>)) = None
   \<and> NewScalewayCache jsonExt (fst (snd (Save jsonExt exampleWorld (exampleCache\<lparr>Modified := True\<rparr>)))) =
       (Inr exampleCache, fst (snd (Save jsonExt exampleWorld (exampleCache\<lparr>Modified := True\<rparr>))))
   \<and> fst (Save jsonExt exampleWorld (accentCache\<lparr>Modified := True\<rparr>)) = None
   \<and> NewScalewayCache jsonExt (fst (snd (Save jsonExt exampleWorld (accentCache\<lparr>Modified := True\<rparr>)))) =
       (Inr accentCache, fst (snd (Save jsonExt exampleWorld (accentCache\<lparr>Modified := True\<rparr>))))"
proof -
  let ?c = "exampleCache\<lparr>Modified := True\<rparr>"
  let ?a = "accentCache\<lparr>Modified := True\<rparr>"
  have 1: "json_Encode jsonExt = encodeJSON" "json_Unmarshal jsonExt = unmarshalJSON"
    by (simp_all add: jsonExt_def)
  have 2: "Modified ?c" "Modified ?a"
    by simp_all
  have 3: "Path ?c = cachePath exampleWorld" "Path ?a = cachePath exampleWorld"
    by (simp_all add: exampleCache_def accentCache_def emptyCache_def cachePath_def homeDir_def
          exampleWorld_def filepath_Join_def filepath_Clean_def cleanStep_def)
  have 4: "\<forall>call. \<not> failing exampleWorld call"
    by (simp add: exampleWorld_def)
  have 5: "files exampleWorld (filepath_Join (filepath_Dir (Path ?c)) (filepath_Base (Path ?c) @ suffix exampleWorld)) = None"
    "files exampleWorld (filepath_Join (filepath_Dir (Path ?a)) (filepath_Base (Path ?a) @ suffix exampleWorld)) = None"
    by (simp_all add: exampleWorld_def)
  have 6: "\<forall>k. distinct (map fst (entries (table k ?c)))"
  proof
    fix k
    show "distinct (map fst (entries (table k ?c)))"
      by (cases k) (simp_all add: table_def exampleCache_def entries_def)
  qed
  have 7: "\<forall>k. list_all validRecord (entries (table k ?c))"
  proof
    fix k
    show "list_all validRecord (entries (table k ?c))"
      by (cases k) (simp_all add: table_def exampleCache_def entries_def validRecord_def)
  qed
  have 8: "initNilMaps (setExported (sortedDoc (exportedFields ?c)) (zeroCache\<lparr>Path := Path ?c\<rparr>)) = exampleCache"
    by (simp add: initNilMaps_def setExported_def sortedDoc_def exportedFields_def zeroCache_def
          exampleCache_def Let_def)
  have 9: "\<forall>k. distinct (map fst (entries (table k ?a)))"
  proof
    fix k
    show "distinct (map fst (entries (table k ?a)))"
      by (cases k) (simp_all add: table_def accentCache_def emptyCache_def entries_def)
  qed
  have 10: "\<forall>k. list_all validRecord (entries (table k ?a))"
  proof
    fix k
    show "list_all validRecord (entries (table k ?a))"
      by (cases k)
         (simp_all add: table_def accentCache_def emptyCache_def entries_def validRecord_def
            runeWidth_def inRange_def)
  qed
  have 11: "initNilMaps (setExported (sortedDoc (exportedFields ?a)) (zeroCache\<lparr>Path := Path ?a\<rparr>)) = accentCache"
    by (simp add: initNilMaps_def setExported_def sortedDoc_def exportedFields_def zeroCache_def
          accentCache_def emptyCache_def Let_def)
  from Save_Load_roundtrip [OF 1 2(1) 3(1) 4 5(1) 6 7]
  have "fst (Save jsonExt exampleWorld ?c) = None
        \<and> NewScalewayCache jsonExt (fst (snd (Save jsonExt exampleWorld ?c))) =
            (Inr exampleCache, fst (snd (Save jsonExt exampleWorld ?c)))"
    unfolding 8 Let_def by blast
  moreover from Save_Load_roundtrip [OF 1 2(2) 3(2) 4 5(2) 9 10]
  have "fst (Save jsonExt exampleWorld ?a) = None
        \<and> NewScalewayCache jsonExt (fst (snd (Save jsonExt exampleWorld ?a))) =
            (Inr accentCache, fst (snd (Save jsonExt exampleWorld ?a)))"
    unfolding 11 Let_def by blast
  ultimately show ?thesis
    by blast
qed

subsection \<open>Loading a file that does not decode\<close>

lemma Save_empty_path:
  assumes "Path c = []" and "Modified c"
  shows "fst (Save E w c) \<noteq> None"
    and "files w p \<noteq> None \<Longrightarrow> files (fst (snd (Save E w c))) p = files w p"
  using assms
  by (auto simp: Save_def ioutil_TempFile_def writeFile_def os_Rename_def os_Remove_def Let_def
      split: if_splits option.splits prod.splits sum.splits)

lemma NewScalewayCache_undecodable:
  assumes "files w (cachePath w) = Some bytes" and "\<not> failing w OpStat" and "\<not> failing w OpReadFile"
      and "json_Unmarshal E bytes (exportedFields zeroCache) = (Some e, d)"
  shows "NewScalewayCache E w =
           (if failing w OpRemove then (Inl ErrIO, w)
            else if failing w OpOpenFile
            then (Inl ErrIO, w\<lparr>files := (files w)(cachePath w := None)\<rparr>)
            else (Inr (initNilMaps (setExported d zeroCache)),
                  w\<lparr>files := (files w)(cachePath w \<mapsto> [])\<rparr>))"
  using assms cachePath_nonempty [of w]
  by (simp add: NewScalewayCache_def os_Stat_def ioutil_ReadFile_def os_Remove_def os_OpenFile_def
        Let_def)

lemma cachePath_cachedWorld: "cachePath (cachedWorld bytes) = ''/home/u/.scw-cache.db''"
  by (simp add: cachedWorld_def cachePath_def homeDir_def exampleWorld_def filepath_Join_def
        filepath_Clean_def cleanStep_def)

lemma cachedWorld_recreated:
  "(cachedWorld bytes)\<lparr>files := (files (cachedWorld bytes))(''/home/u/.scw-cache.db'' \<mapsto> [])\<rparr> =
     cachedWorld []"
  by (simp add: cachedWorld_def fun_eq_iff)

lemma sampleUnmarshal_garbage:
  "json_Unmarshal sampleExt ''garbage'' (exportedFields zeroCache) = (Some ErrJSON, exportedFields zeroCache)"
  by (simp add: sampleExt_def sampleUnmarshal_def sampleEncode_def mixedText_def quoteJSON_def)

lemma sampleUnmarshal_mixed:
  "json_Unmarshal sampleExt mixedText (exportedFields zeroCache) =
     (Some ErrJSON,
      (exportedFields zeroCache)\<lparr>servers :=
         Some [(''s1'', \<lparr>REGION = ''par1'', ARCH = ''arm'', OWNER = ''me'', TITLE = ''web''\<rparr>)]\<rparr>)"
  by (simp add: sampleExt_def sampleUnmarshal_def sampleEncode_def mixedText_def quoteJSON_def)

text \<open>
  C10 (as amended). The cache file exists and is read, and its content fails to
  decode. If removing the file fails, or creating it anew fails, \<open>NewScalewayCache\<close>
  returns that error (in the second case the file is gone). Otherwise it returns
  success: the file is now empty, and the store holds what the second decoding of the
  old content, whose error is ignored, left in the zero store, with every nil mapping
  initialised; it is an empty store when the decoder left nothing. The dirty flag of
  the store is false and its path is the empty string, not the cache path. So \<open>Save\<close> on
  it writes nothing while it is clean, \<open>Flush\<close> on it fails with "not exist" and deletes
  nothing, and once the store is modified every \<open>Save\<close> fails and leaves the cache file
  as the empty file it is.
\<close>

theorem NewScalewayCache_corrupt_file:
  assumes "files w (cachePath w) = Some bytes" and "\<not> failing w OpStat" and "\<not> failing w OpReadFile"
      and "json_Unmarshal E bytes (exportedFields zeroCache) = (Some e, d)"
  shows "(failing w OpRemove \<longrightarrow> NewScalewayCache E w = (Inl ErrIO, w))
       \<and> (\<not> failing w OpRemove \<longrightarrow> failing w OpOpenFile \<longrightarrow>
            NewScalewayCache E w = (Inl ErrIO, w\<lparr>files := (files w)(cachePath w := None)\<rparr>))
       \<and> (\<not> failing w OpRemove \<longrightarrow> \<not> failing w OpOpenFile \<longrightarrow>
            (let c = initNilMaps (setExported d zeroCache);
                 w' = w\<lparr>files := (files w)(cachePath w \<mapsto> [])\<rparr>
             in NewScalewayCache E w = (Inr c, w')
                \<and> (\<forall>k. table k c \<noteq> None \<and> entries (table k c) = entries (docTable k d))
                \<and> (d = exportedFields zeroCache \<longrightarrow> (\<forall>k. table k c = Some []))
                \<and> \<not> Modified c \<and> Path c = [] \<and> cachePath w \<noteq> []
                \<and> Save E w' c = (None, w', c)
                \<and> Flush w' c = (Some ErrNotExist, w')
                \<and> (\<forall>c'. Path c' = [] \<and> Modified c' \<longrightarrow>
                      fst (Save E w' c') \<noteq> None
                      \<and> files (fst (snd (Save E w' c'))) (cachePath w) = Some [])))"
proof -
  let ?c = "initNilMaps (setExported d zeroCache)"
  let ?w = "w\<lparr>files := (files w)(cachePath w \<mapsto> [])\<rparr>"
  have tabs: "\<forall>k. table k ?c \<noteq> None \<and> entries (table k ?c) = entries (docTable k d)"
    by (simp add: table_initNilMaps del: not_None_eq)
  have empty: "\<forall>k. table k ?c = Some []" if "d = exportedFields zeroCache"
  proof
    fix k
    have "entries (table k ?c) = entries (docTable k d)"
      by (simp add: table_initNilMaps)
    also have "\<dots> = []"
      using that by (cases k) (simp_all add: exportedFields_def zeroCache_def docTable_def entries_def)
    finally have "entries (table k ?c) = []" .
    moreover have "table k ?c \<noteq> None" by (rule table_initNilMaps)
    ultimately show "table k ?c = Some []" by (auto simp: entries_def)
  qed
  have flags: "\<not> Modified ?c" "Path ?c = []" by simp_all
  have save: "Save E ?w ?c = (None, ?w, ?c)" by (rule Save_clean) simp
  have flush: "Flush ?w ?c = (Some ErrNotExist, ?w)" by (simp add: Flush_def os_Remove_def)
  have later: "\<forall>c'. Path c' = [] \<and> Modified c' \<longrightarrow>
                 fst (Save E ?w c') \<noteq> None
                 \<and> files (fst (snd (Save E ?w c'))) (cachePath w) = Some []"
  proof (intro allI impI)
    fix c' :: ScalewayCache
    assume a: "Path c' = [] \<and> Modified c'"
    have "files ?w (cachePath w) \<noteq> None" by simp
    from Save_empty_path(2) [OF _ _ this, of c' E] a
    have "files (fst (snd (Save E ?w c'))) (cachePath w) = Some []" by simp
    with Save_empty_path(1) [of c' E ?w] a
    show "fst (Save E ?w c') \<noteq> None \<and> files (fst (snd (Save E ?w c'))) (cachePath w) = Some []"
      by blast
  qed
  show ?thesis
    unfolding NewScalewayCache_undecodable [OF assms] Let_def
    using tabs empty flags save flush later cachePath_nonempty [of w]
    by simp
qed


text \<open>
  C10 as stated fails twice. When the undecodable file cannot be removed, the load
  returns the error, not a store. And a document with a member of the wrong type fails
  to decode but leaves its well-typed members in the store: the store returned is not
  empty.
\<close>

theorem NewScalewayCache_corrupt_file_counterexample:
  "files (cachedWorld ''garbage'') ''/home/u/.scw-cache.db'' = Some ''garbage''
   \<and> fst (json_Unmarshal sampleExt ''garbage'' (exportedFields zeroCache)) = Some ErrJSON
   \<and> NewScalewayCache sampleExt ((cachedWorld ''garbage'')\<lparr>failing := (\<lambda>call. call = OpRemove)\<rparr>) =
       (Inl ErrIO, (cachedWorld ''garbage'')\<lparr>failing := (\<lambda>call. call = OpRemove)\<rparr>)
   \<and> files (cachedWorld mixedText) ''/home/u/.scw-cache.db'' = Some mixedText
   \<and> fst (json_Unmarshal sampleExt mixedText (exportedFields zeroCache)) = Some ErrJSON
   \<and> NewScalewayCache sampleExt (cachedWorld mixedText) =
       (Inr (emptyCache\<lparr>Servers :=
               Some [(''s1'', \<lparr>REGION = ''par1'', ARCH = ''arm'', OWNER = ''me'', TITLE = ''web''\<rparr>)],
             Path := []\<rparr>),
        cachedWorld [])"
proof -
  let ?wf = "(cachedWorld ''garbage'')\<lparr>failing := (\<lambda>call. call = OpRemove)\<rparr>"
  let ?wm = "cachedWorld mixedText"
  have cp: "cachePath ?wf = ''/home/u/.scw-cache.db''"
    using cachePath_cachedWorld [of "''garbage''"] cachePath_getenv [of ?wf "cachedWorld ''garbage''"]
    by simp
  have f1: "files ?wf (cachePath ?wf) = Some ''garbage''"
    by (simp add: cp) (simp add: cachedWorld_def)
  have f2: "\<not> failing ?wf OpStat" "\<not> failing ?wf OpReadFile" by simp_all
  have a: "NewScalewayCache sampleExt ?wf = (Inl ErrIO, ?wf)"
    using NewScalewayCache_undecodable [OF f1 f2 sampleUnmarshal_garbage] by simp
  have m1: "files ?wm (cachePath ?wm) = Some mixedText"
    by (simp add: cachePath_cachedWorld) (simp add: cachedWorld_def)
  have m2: "\<not> failing ?wm OpStat" "\<not> failing ?wm OpReadFile"
           "\<not> failing ?wm OpRemove" "\<not> failing ?wm OpOpenFile"
    by (simp_all add: cachedWorld_def exampleWorld_def)
  have c: "initNilMaps (setExported
             ((exportedFields zeroCache)\<lparr>servers :=
                Some [(''s1'', \<lparr>REGION = ''par1'', ARCH = ''arm'', OWNER = ''me'', TITLE = ''web''\<rparr>)]\<rparr>)
             zeroCache) =
           emptyCache\<lparr>Servers :=
               Some [(''s1'', \<lparr>REGION = ''par1'', ARCH = ''arm'', OWNER = ''me'', TITLE = ''web''\<rparr>)],
             Path := []\<rparr>"
    by (simp add: initNilMaps_def setExported_def exportedFields_def zeroCache_def emptyCache_def
          make_map_def Let_def)
  have b: "NewScalewayCache sampleExt ?wm =
       (Inr (emptyCache\<lparr>Servers :=
               Some [(''s1'', \<lparr>REGION = ''par1'', ARCH = ''arm'', OWNER = ''me'', TITLE = ''web''\<rparr>)],
             Path := []\<rparr>),
        cachedWorld [])"
    using NewScalewayCache_undecodable [OF m1 m2(1,2) sampleUnmarshal_mixed] m2(3,4)
    by (simp add: c cachePath_cachedWorld cachedWorld_recreated)
  have g: "files (cachedWorld ''garbage'') ''/home/u/.scw-cache.db'' = Some ''garbage''"
          "files (cachedWorld mixedText) ''/home/u/.scw-cache.db'' = Some mixedText"
    by (simp_all add: cachedWorld_def)
  show ?thesis
    using a b g by (simp add: sampleUnmarshal_garbage sampleUnmarshal_mixed)
qed

theorem NewScalewayCache_corrupt_file_witness:
  "NewScalewayCache sampleExt (cachedWorld ''garbage'') =
     (Inr (emptyCache\<lparr>Path := []\<rparr>), cachedWorld [])
   \<and> Flush (cachedWorld []) (emptyCache\<lparr>Path := []\<rparr>) = (Some ErrNotExist, cachedWorld [])
   \<and> fst (Save sampleExt (cachedWorld []) (emptyCache\<lparr>Path := [], Modified := True\<rparr>)) \<noteq> None
   \<and> NewScalewayCache sampleExt ((cachedWorld ''garbage'')\<lparr>failing := (\<lambda>call. call = OpRemove)\<rparr>) =
       (Inl ErrIO, (cachedWorld ''garbage'')\<lparr>failing := (\<lambda>call. call = OpRemove)\<rparr>)"
proof -
  let ?w = "cachedWorld ''garbage''"
  let ?wf = "(cachedWorld ''garbage'')\<lparr>failing := (\<lambda>call. call = OpRemove)\<rparr>"
  have cq: "cachePath ?wf = ''/home/u/.scw-cache.db''"
    using cachePath_cachedWorld [of "''garbage''"] cachePath_getenv [of ?wf ?w] by simp
  have 1: "files ?w (cachePath ?w) = Some ''garbage''"
    by (simp add: cachePath_cachedWorld) (simp add: cachedWorld_def)
  have 2: "\<not> failing ?w OpStat" "\<not> failing ?w OpReadFile"
    by (simp_all add: cachedWorld_def exampleWorld_def)
  have 3: "\<not> failing ?w OpRemove" "\<not> failing ?w OpOpenFile"
    by (simp_all add: cachedWorld_def exampleWorld_def)
  have g1: "files ?wf (cachePath ?wf) = Some ''garbage''"
    by (simp add: cq) (simp add: cachedWorld_def)
  have g2: "\<not> failing ?wf OpStat" "\<not> failing ?wf OpReadFile" by simp_all
  have g3: "failing ?wf OpRemove" by simp
  have c: "initNilMaps (setExported (exportedFields zeroCache) zeroCache) = emptyCache\<lparr>Path := []\<rparr>"
    by (simp add: initNilMaps_def setExported_def exportedFields_def zeroCache_def emptyCache_def
          make_map_def Let_def)
  have dirty: "Path (emptyCache\<lparr>Path := [], Modified := True\<rparr>) = []
               \<and> Modified (emptyCache\<lparr>Path := [], Modified := True\<rparr>)" by simp
  from NewScalewayCache_corrupt_file [OF 1 2 sampleUnmarshal_garbage] 3
  have "NewScalewayCache sampleExt ?w = (Inr (emptyCache\<lparr>Path := []\<rparr>), cachedWorld [])
        \<and> Flush (cachedWorld []) (emptyCache\<lparr>Path := []\<rparr>) = (Some ErrNotExist, cachedWorld [])
        \<and> (\<forall>c'. Path c' = [] \<and> Modified c' \<longrightarrow>
              fst (Save sampleExt (cachedWorld []) c') \<noteq> None)"
    by (simp add: Let_def c cachePath_cachedWorld cachedWorld_recreated)
  moreover from NewScalewayCache_corrupt_file [OF g1 g2 sampleUnmarshal_garbage] g3
  have "NewScalewayCache sampleExt ?wf = (Inl ErrIO, ?wf)" by blast
  ultimately show ?thesis using dirty by blast
qed

subsection \<open>Stores with initialised mappings\<close>

text \<open>
  The insert theorem is about stores whose mappings are initialised. Every store that
  \<open>NewScalewayCache\<close> returns is one, and an insert that returns keeps it so.
\<close>

lemma NewScalewayCache_initialised:
  assumes "NewScalewayCache E w = (Inr c, w')"
  shows "table k c \<noteq> None"
proof -
  have lit: "table k \<lparr>Images = make_map, Snapshots = make_map, Volumes = make_map,
                  Bootscripts = make_map, Servers = make_map, Path = p,
                  Modified = False\<rparr> \<noteq> None" for p
    by (cases k) (simp_all add: table_def make_map_def)
  from assms show ?thesis
    using lit table_initNilMaps(2)
    by (auto simp: NewScalewayCache_def Let_def split: option.splits sum.splits prod.splits if_splits
        simp del: not_None_eq)
qed

lemma Insert_initialised:
  assumes "Insert k c i r a ow n = Inr c'" and "table j c \<noteq> None"
  shows "table j c' \<noteq> None"
proof -
  from assms(1) obtain xs where xs: "table k c = Some xs"
    by (cases k; cases "table k c")
       (auto simp: Insert_def table_def InsertServer_def InsertImage_def InsertSnapshot_def
          InsertVolume_def InsertBootscript_def mapAssign_def mapIndex_def entries_def
          split: option.splits if_splits)
  from Insert_result [OF xs, of i r a ow n] assms
  show ?thesis
    by (cases k; cases j) (auto simp: table_def with_table_def split: if_splits)
qed

end
